theory Spec2Isabelle
  imports Complex_Main "HOL-Library.Word"
begin

unbundle bit_operations_syntax

text \<open>
  A model of the wave file generator: \<open>WaveHeader.h\<close>, \<open>SineWaveGen.h\<close> and the
  functions \<open>create_wave_header\<close>, \<open>create_wave_data\<close>, \<open>write_to_file\<close> and
  \<open>create_wave_file\<close> of \<open>main.cpp\<close>. Integers have their C++ widths. A \<open>double\<close> is
  an IEEE binary64 value and every operation rounds to nearest, ties to even; the target
  is little-endian; \<open>std::sin\<close> is a parameter; memory is not bounded.
\<close>

section \<open>Machine types\<close>

type_synonym u8 = "8 word"
type_synonym u16 = "16 word"
type_synonym u32 = "32 word"
type_synonym u64 = "64 word"
type_synonym i32 = "32 word"  \<comment> \<open>read with \<open>sint\<close>\<close>

subsection \<open>Binary64 values\<close>

text \<open>
  A \<open>double\<close> is a finite value (kept as the rational it denotes), an infinity or a
  NaN. The two zeros are both \<open>Fin 0\<close>: the program only compares a duration with
  zero, multiplies and converts, and those agree on \<open>+0.0\<close> and \<open>-0.0\<close>; the one
  division has an unsigned integer (so \<open>+0.0\<close> at worst) as divisor.
\<close>

datatype double = Fin rat | PInf | NInf | NaN

text \<open>Number of binary digits of a natural number.\<close>

fun bit_length :: "nat \<Rightarrow> nat" where
  "bit_length n = (if n = 0 then 0 else Suc (bit_length (n div 2)))"

declare bit_length.simps [simp del]

text \<open>\<open>ilog2 x\<close> is the exponent \<open>e\<close> with \<open>2^e \<le> x < 2^(e+1)\<close>, for \<open>x > 0\<close>.\<close>

definition ilog2 :: "rat \<Rightarrow> int" where
  "ilog2 x = (if 1 \<le> x then int (bit_length (nat \<lfloor>x\<rfloor>)) - 1
              else - int (bit_length (nat (\<lceil>1 / x\<rceil> - 1))))"

definition pow2 :: "int \<Rightarrow> rat" where
  "pow2 k = (if 0 \<le> k then 2 ^ nat k else 1 / 2 ^ nat (- k))"

text \<open>Nearest integer, ties to the even one.\<close>

definition round_even :: "rat \<Rightarrow> int" where
  "round_even m =
     (let f = \<lfloor>m\<rfloor>; r = m - of_int f
      in if r < 1 / 2 then f
         else if 1 / 2 < r then f + 1
         else if even f then f else f + 1)"

text \<open>
  Rounding of an exact result to binary64, round-to-nearest-even: 53 significant bits,
  least exponent \<open>-1022\<close> (below it the spacing stays \<open>2^-1074\<close>), overflow to an
  infinity from \<open>2^1024\<close> on.
\<close>

definition rnd :: "rat \<Rightarrow> double" where
  "rnd x =
     (if x = 0 then Fin 0
      else
        let a = \<bar>x\<bar>;
            e = max (ilog2 a) (- 1022);
            u = pow2 (e - 52);
            r = of_int (round_even (a / u)) * u
        in if pow2 1024 \<le> r then (if 0 < x then PInf else NInf)
           else Fin (sgn x * r))"

fun dmul :: "double \<Rightarrow> double \<Rightarrow> double" where
  "dmul NaN _ = NaN"
| "dmul _ NaN = NaN"
| "dmul (Fin a) (Fin b) = rnd (a * b)"
| "dmul (Fin a) PInf = (if a = 0 then NaN else if 0 < a then PInf else NInf)"
| "dmul (Fin a) NInf = (if a = 0 then NaN else if 0 < a then NInf else PInf)"
| "dmul PInf (Fin b) = (if b = 0 then NaN else if 0 < b then PInf else NInf)"
| "dmul NInf (Fin b) = (if b = 0 then NaN else if 0 < b then NInf else PInf)"
| "dmul PInf PInf = PInf"
| "dmul PInf NInf = NInf"
| "dmul NInf PInf = NInf"
| "dmul NInf NInf = PInf"

declare dmul.simps [simp del]

text \<open>Division; a zero divisor is \<open>+0.0\<close>.\<close>

fun ddiv :: "double \<Rightarrow> double \<Rightarrow> double" where
  "ddiv NaN _ = NaN"
| "ddiv _ NaN = NaN"
| "ddiv (Fin a) (Fin b) =
     (if b = 0 then (if a = 0 then NaN else if 0 < a then PInf else NInf)
      else rnd (a / b))"
| "ddiv (Fin a) PInf = Fin 0"
| "ddiv (Fin a) NInf = Fin 0"
| "ddiv PInf (Fin b) = (if 0 \<le> b then PInf else NInf)"
| "ddiv NInf (Fin b) = (if 0 \<le> b then NInf else PInf)"
| "ddiv PInf PInf = NaN"
| "ddiv PInf NInf = NaN"
| "ddiv NInf PInf = NaN"
| "ddiv NInf NInf = NaN"

declare ddiv.simps [simp del]

text \<open>\<open>x <= y\<close> on doubles: false as soon as a NaN is involved.\<close>

fun dle :: "double \<Rightarrow> double \<Rightarrow> bool" where
  "dle NaN _ = False"
| "dle _ NaN = False"
| "dle (Fin a) (Fin b) = (a \<le> b)"
| "dle NInf _ = True"
| "dle _ PInf = True"
| "dle PInf _ = False"
| "dle _ NInf = False"

text \<open>An unsigned 32-bit integer converts to a double exactly.\<close>

definition of_u32 :: "u32 \<Rightarrow> double" where
  "of_u32 w = Fin (of_nat (unat w))"

text \<open>
  Conversion of a double to an integer type discards the fraction (rounds toward zero).
  Where the truncated value is not representable in the target type, and for infinities
  and NaN, C++ leaves the behaviour undefined: the conversion has no result there.
\<close>

definition trunc :: "rat \<Rightarrow> int" where
  "trunc q = (if 0 \<le> q then \<lfloor>q\<rfloor> else \<lceil>q\<rceil>)"

definition to_u64 :: "double \<Rightarrow> u64 option" where
  "to_u64 d = (case d of
       Fin q \<Rightarrow> (if 0 \<le> trunc q \<and> trunc q < 2 ^ 64 then Some (word_of_int (trunc q)) else None)
     | _ \<Rightarrow> None)"

definition to_u32 :: "double \<Rightarrow> u32 option" where
  "to_u32 d = (case d of
       Fin q \<Rightarrow> (if 0 \<le> trunc q \<and> trunc q < 2 ^ 32 then Some (word_of_int (trunc q)) else None)
     | _ \<Rightarrow> None)"

definition to_i32 :: "double \<Rightarrow> i32 option" where
  "to_i32 d = (case d of
       Fin q \<Rightarrow> (if - (2 ^ 31) \<le> trunc q \<and> trunc q < 2 ^ 31 then Some (word_of_int (trunc q)) else None)
     | _ \<Rightarrow> None)"

section \<open>Outcomes of a call\<close>

text \<open>
  The exceptions the program throws: \<open>std::invalid_argument\<close>, \<open>std::overflow_error\<close>
  and the three \<open>std::ofstream::failure\<close>s of \<open>write_to_file\<close>, told apart by their
  message (file not opened, header not written, audio data not written).
\<close>

datatype error =
    invalid_argument
  | overflow_error
  | open_failure
  | header_write_failure
  | data_write_failure

text \<open>
  A call returns a value, throws, or runs into a conversion that C++ leaves undefined;
  in the last case nothing is known about what the program does.
\<close>

datatype 'a outcome = Returns 'a | Throws error | Undefined

section \<open>WaveHeader.h\<close>

record WaveHeader =
  file_type_bloc_id :: "u8 list"
  file_size :: u32
  file_format_id :: "u8 list"
  format_bloc_id :: "u8 list"
  bloc_size :: u32
  audio_format :: u16
  channel_count :: u16
  sample_rate :: u32
  bytes_per_sec :: u32
  bytes_per_bloc :: u16
  bits_per_sample :: u16
  data_bloc_id :: "u8 list"
  data_size :: u32

text \<open>The bytes of an integer object on a little-endian target.\<close>

definition bytes16 :: "u16 \<Rightarrow> u8 list" where
  "bytes16 w = [ucast w, ucast (drop_bit 8 w)]"

definition bytes32 :: "u32 \<Rightarrow> u8 list" where
  "bytes32 w = [ucast w, ucast (drop_bit 8 w), ucast (drop_bit 16 w), ucast (drop_bit 24 w)]"

text \<open>
  The object representation of the struct, in declaration order. Every member sits at a
  multiple of its alignment, so there is no padding and \<open>sizeof(WaveHeader)\<close> is 44.
\<close>

definition object_bytes :: "WaveHeader \<Rightarrow> u8 list" where
  "object_bytes h =
     take 4 (file_type_bloc_id h) @ bytes32 (file_size h) @ take 4 (file_format_id h) @
     take 4 (format_bloc_id h) @ bytes32 (bloc_size h) @ bytes16 (audio_format h) @
     bytes16 (channel_count h) @ bytes32 (sample_rate h) @ bytes32 (bytes_per_sec h) @
     bytes16 (bytes_per_bloc h) @ bytes16 (bits_per_sample h) @
     take 4 (data_bloc_id h) @ bytes32 (data_size h)"

definition k_header_size :: u16 where
  "k_header_size = 44"

definition k_header_bloc_size :: u32 where
  "k_header_bloc_size = 0x10"

definition k_channel_count_mono :: u16 where
  "k_channel_count_mono = 0x01"

definition k_channel_count_stereo :: u16 where
  "k_channel_count_stereo = 0x02"

definition k_audio_format_PCM :: u16 where
  "k_audio_format_PCM = 0x01"

definition k_audio_format_IEEE_754 :: u16 where
  "k_audio_format_IEEE_754 = 0x03"

section \<open>SineWaveGen.h\<close>

text \<open>The literal \<open>3.141592653589793\<close>, as the compiler rounds it.\<close>

definition k_PI :: double where
  "k_PI = rnd (3141592653589793 / 1000000000000000)"

record sine_wave_generator =
  m_amplitude :: u32
  m_frequency :: u32
  m_sample_rate :: u32

text \<open>
  \<open>std::sin\<close> belongs to the C library, not to this program: it is the parameter
  \<open>lsin\<close>. Each arithmetic operation rounds its exact result once, and the product
  \<open>2.0 * k_PI * m_frequency * sample_time\<close> associates to the left.
\<close>

definition get_sample :: "(double \<Rightarrow> double) \<Rightarrow> sine_wave_generator \<Rightarrow> u32 \<Rightarrow> i32 outcome" where
  "get_sample lsin g sample_index =
     (let time_increment = ddiv (Fin 1) (of_u32 (m_sample_rate g));
          sample_time = dmul (of_u32 sample_index) time_increment;
          angle = dmul (dmul (dmul (Fin 2) k_PI) (of_u32 (m_frequency g))) sample_time
      in case to_i32 (dmul (of_u32 (m_amplitude g)) (lsin angle)) of
           None \<Rightarrow> Undefined
         | Some s \<Rightarrow> Returns s)"

section \<open>main.cpp\<close>

definition k_amplitude :: u32 where
  "k_amplitude = 30000000"

definition k_sample_rate :: u32 where
  "k_sample_rate = 48000"

definition k_bits_per_sample :: u16 where
  "k_bits_per_sample = 24"

definition UINT32_MAX :: u64 where
  "UINT32_MAX = 0xFFFFFFFF"

text \<open>The tag bytes copied from a string literal.\<close>

definition ascii :: "string \<Rightarrow> u8 list" where
  "ascii s = map (\<lambda>c. of_nat (of_char c)) s"

text \<open>The value-initialised struct: every member zero.\<close>

definition zero_header :: WaveHeader where
  "zero_header =
     \<lparr>file_type_bloc_id = [0, 0, 0, 0], file_size = 0, file_format_id = [0, 0, 0, 0],
      format_bloc_id = [0, 0, 0, 0], bloc_size = 0, audio_format = 0, channel_count = 0,
      sample_rate = 0, bytes_per_sec = 0, bytes_per_bloc = 0, bits_per_sample = 0,
      data_bloc_id = [0, 0, 0, 0], data_size = 0\<rparr>"

text \<open>
  The struct as \<open>create_wave_header\<close> has filled it before the size fields are set.
  The two \<open>uint16_t\<close> operands of \<open>channel_count * bits_per_sample / 8\<close> are promoted to
  \<open>int\<close>; the product \<open>sample_rate * bytes_per_bloc\<close> is taken in \<open>uint32_t\<close>.
\<close>

definition format_fields :: WaveHeader where
  "format_fields =
     (let hdr = zero_header
            \<lparr>file_type_bloc_id := ascii ''RIFF'', file_format_id := ascii ''WAVE'',
             format_bloc_id := ascii ''fmt '', data_bloc_id := ascii ''data''\<rparr>;
          hdr = hdr\<lparr>bloc_size := k_header_bloc_size\<rparr>;
          hdr = hdr\<lparr>audio_format := k_audio_format_PCM\<rparr>;
          hdr = hdr\<lparr>channel_count := k_channel_count_mono\<rparr>;
          hdr = hdr\<lparr>sample_rate := k_sample_rate\<rparr>;
          hdr = hdr\<lparr>bits_per_sample := k_bits_per_sample\<rparr>;
          hdr = hdr\<lparr>bytes_per_bloc :=
                  word_of_int (uint (channel_count hdr) * uint (bits_per_sample hdr) div 8)\<rparr>;
          hdr = hdr\<lparr>bytes_per_sec := sample_rate hdr * ucast (bytes_per_bloc hdr)\<rparr>
      in hdr)"

text \<open>
  The struct at the \<open>memcpy\<close> into the result array. The sum
  \<open>k_header_size + data_size - 8\<close> is computed in \<open>uint32_t\<close> and wraps.
\<close>

definition wave_header_struct :: "double \<Rightarrow> WaveHeader outcome" where
  "wave_header_struct file_length_sec =
     (let hdr = format_fields
      in case to_u64 (dmul file_length_sec (of_u32 (bytes_per_sec hdr))) of
           None \<Rightarrow> Undefined
         | Some data_size64 \<Rightarrow>
             if data_size64 > UINT32_MAX then Throws overflow_error
             else
               let hdr = hdr\<lparr>data_size := ucast data_size64\<rparr>;
                   hdr = hdr\<lparr>file_size := ucast k_header_size + data_size hdr - 8\<rparr>
               in Returns hdr)"

text \<open>
  The result array of \<open>create_wave_header\<close> is declared without an initialiser, so
  it first holds whatever the stack held (\<open>junk\<close>); \<open>memcpy\<close> then overwrites its first
  \<open>k_header_size\<close> bytes with the object representation of the struct.
\<close>

definition memcpy :: "u8 list \<Rightarrow> u8 list \<Rightarrow> nat \<Rightarrow> u8 list" where
  "memcpy dst src n = take n src @ drop n dst"

definition header_array :: "u8 list \<Rightarrow> WaveHeader \<Rightarrow> u8 list" where
  "header_array junk hdr = memcpy junk (object_bytes hdr) (unat k_header_size)"

text \<open>
  The array holds \<open>k_header_size\<close> bytes, all of them overwritten, so the function
  returns the first \<open>k_header_size\<close> bytes of the object.
\<close>

definition create_wave_header :: "double \<Rightarrow> u8 list outcome" where
  "create_wave_header file_length_sec =
     (case wave_header_struct file_length_sec of
        Returns hdr \<Rightarrow> Returns (take (unat k_header_size) (object_bytes hdr))
      | Throws e \<Rightarrow> Throws e
      | Undefined \<Rightarrow> Undefined)"

text \<open>
  The three \<open>push_back\<close>s of one sample. \<open>>>\<close> on the signed sample is an arithmetic
  shift; \<open>push_back\<close> keeps the low eight bits of its \<open>int\<close> argument.
\<close>

definition sample_bytes :: "i32 \<Rightarrow> u8 list" where
  "sample_bytes sample =
     [ucast (sample AND 0xFF),
      ucast (signed_drop_bit 8 sample AND 0xFF),
      ucast (signed_drop_bit 16 sample AND 0xFF)]"

text \<open>The \<open>for\<close> loop of \<open>create_wave_data\<close>, from index \<open>sample_index\<close> on.\<close>

function wave_loop ::
  "(double \<Rightarrow> double) \<Rightarrow> sine_wave_generator \<Rightarrow> u32 \<Rightarrow> u32 \<Rightarrow> u8 list \<Rightarrow> u8 list outcome" where
  "wave_loop lsin audio_source sample_index total_sample_count samples =
     (if sample_index < total_sample_count then
        (case get_sample lsin audio_source sample_index of
           Returns sample \<Rightarrow>
             wave_loop lsin audio_source (sample_index + 1) total_sample_count
               (samples @ sample_bytes sample)
         | Throws e \<Rightarrow> Throws e
         | Undefined \<Rightarrow> Undefined)
      else Returns samples)"
  by pat_completeness auto

termination
proof (relation "measure (\<lambda>(lsin, audio_source, sample_index, total_sample_count, samples).
                   unat total_sample_count - unat sample_index)")
  show "wf (measure (\<lambda>(lsin, audio_source, sample_index, total_sample_count, samples).
                   unat total_sample_count - unat sample_index))"
    by simp
next
  fix lsin :: "double \<Rightarrow> double" and audio_source :: sine_wave_generator
    and sample_index total_sample_count :: u32 and samples :: "u8 list" and x :: i32
  assume "sample_index < total_sample_count"
  then have below: "unat sample_index < unat total_sample_count"
    by (simp add: word_less_nat_alt)
  moreover have "unat total_sample_count < 2 ^ 32"
    using unsigned_less [of total_sample_count] by simp
  ultimately have "unat sample_index + 1 < 2 ^ 32"
    by linarith
  then have "unat (sample_index + 1) = Suc (unat sample_index)"
    by (simp add: unat_word_ariths)
  with below show
    "((lsin, audio_source, sample_index + 1, total_sample_count, samples @ sample_bytes x),
      (lsin, audio_source, sample_index, total_sample_count, samples))
     \<in> measure (\<lambda>(lsin, audio_source, sample_index, total_sample_count, samples).
                   unat total_sample_count - unat sample_index)"
    by simp
qed

declare wave_loop.simps [simp del]

text \<open>
  The implicit conversion of \<open>k_sample_rate * file_length_sec\<close> to \<open>uint32_t\<close>
  discards the fraction.
\<close>

definition create_wave_data :: "(double \<Rightarrow> double) \<Rightarrow> u32 \<Rightarrow> double \<Rightarrow> u8 list outcome" where
  "create_wave_data lsin wave_frequency file_length_sec =
     (let audio_source = \<lparr>m_amplitude = k_amplitude, m_frequency = wave_frequency,
                           m_sample_rate = k_sample_rate\<rparr>
      in case to_u32 (dmul (of_u32 k_sample_rate) file_length_sec) of
           None \<Rightarrow> Undefined
         | Some total_sample_count \<Rightarrow> wave_loop lsin audio_source 0 total_sample_count [])"

subsection \<open>The file system and the output stream\<close>

text \<open>
  What \<open>write_to_file\<close> can observe of its environment: the files that exist, whether
  a path can be opened for writing, how many bytes the device takes for the file, and how
  many bytes the stream holds back in its buffer before it writes through.
\<close>

record file_system =
  files :: "string \<Rightarrow> u8 list option"
  can_open :: "string \<Rightarrow> bool"
  capacity :: nat
  buffer :: nat

text \<open>
  An open \<open>std::ofstream\<close>: the bytes still in its buffer, the bytes the device has
  taken, and whether a write has failed.
\<close>

record ofstream =
  pending :: "u8 list"
  stored :: "u8 list"
  bad :: bool

text \<open>
  \<open>file.write\<close>: bytes that fit the buffer stay there, and the call cannot fail. Bytes
  that do not fit go to the device together with what was pending; the call fails when
  the device does not take them all.
\<close>

definition stream_write :: "file_system \<Rightarrow> ofstream \<Rightarrow> u8 list \<Rightarrow> ofstream" where
  "stream_write fs file bytes =
     (if length (pending file) + length bytes \<le> buffer fs then
        file\<lparr>pending := pending file @ bytes\<rparr>
      else
        let out = stored file @ pending file @ bytes
        in file\<lparr>pending := [], stored := take (capacity fs) out,
                bad := (capacity fs < length out)\<rparr>)"

text \<open>
  \<open>file.close()\<close>: what is pending goes to the device, as far as the device takes it.
  The program does not test the stream afterwards. The result is the content of the file.
\<close>

definition stream_close :: "file_system \<Rightarrow> ofstream \<Rightarrow> u8 list" where
  "stream_close fs file = take (capacity fs) (stored file @ pending file)"

text \<open>
  Opening the \<open>ofstream\<close> truncates the file. Each \<open>write\<close> is tested with \<open>fail()\<close>;
  the handler closes the file and rethrows.
\<close>

definition write_to_file ::
  "u8 list \<Rightarrow> u32 \<Rightarrow> u8 list \<Rightarrow> u32 \<Rightarrow> string \<Rightarrow> file_system \<Rightarrow> unit outcome \<times> file_system" where
  "write_to_file hdr hdr_size data data_sz file_path fs =
     (if \<not> can_open fs file_path then (Throws open_failure, fs)
      else
        let file = \<lparr>pending = [], stored = [], bad = False\<rparr>;
            file = stream_write fs file (take (unat hdr_size) hdr)
        in if bad file then
             (Throws header_write_failure,
              fs\<lparr>files := (files fs)(file_path \<mapsto> stream_close fs file)\<rparr>)
           else
             let file = stream_write fs file (take (unat data_sz) data)
             in if bad file then
                  (Throws data_write_failure,
                   fs\<lparr>files := (files fs)(file_path \<mapsto> stream_close fs file)\<rparr>)
                else
                  (Returns (), fs\<lparr>files := (files fs)(file_path \<mapsto> stream_close fs file)\<rparr>))"

text \<open>
  \<open>create_wave_file\<close>: the two argument checks, the encoder, the sink. An exception of
  the encoder leaves before \<open>write_to_file\<close> is reached. After \<open>Undefined\<close> the
  file system returned carries no information.
\<close>

definition create_wave_file ::
  "(double \<Rightarrow> double) \<Rightarrow> u32 \<Rightarrow> double \<Rightarrow> file_system \<Rightarrow> unit outcome \<times> file_system" where
  "create_wave_file lsin wave_frequency file_length_sec fs =
     (if dle file_length_sec (Fin 0) then (Throws invalid_argument, fs)
      else if wave_frequency > k_sample_rate div 2 then (Throws invalid_argument, fs)
      else
        case create_wave_header file_length_sec of
          Throws e \<Rightarrow> (Throws e, fs)
        | Undefined \<Rightarrow> (Undefined, fs)
        | Returns header \<Rightarrow>
            (case create_wave_data lsin wave_frequency file_length_sec of
               Throws e \<Rightarrow> (Throws e, fs)
             | Undefined \<Rightarrow> (Undefined, fs)
             | Returns samples \<Rightarrow>
                 write_to_file header (word_of_nat (length header))
                   samples (word_of_nat (length samples)) ''audio.wav'' fs))"

section \<open>Reference notions of the specification\<close>

text \<open>
  A reader of the payload: three bytes, least significant first, as a 24-bit
  two's-complement integer.
\<close>

fun decode24 :: "u8 list \<Rightarrow> int option" where
  "decode24 [b0, b1, b2] =
     (let u = uint b0 + 256 * uint b1 + 65536 * uint b2
      in Some (if u < 2 ^ 23 then u else u - 2 ^ 24))"
| "decode24 _ = None"

text \<open>The saturating alternative the specification contrasts the encoder with.\<close>

definition clamp24 :: "int \<Rightarrow> int" where
  "clamp24 v = max (- (2 ^ 23)) (min (2 ^ 23 - 1) v)"

section \<open>Concrete instances\<close>

text \<open>
  A sine routine to run the model on: the odd Taylor polynomial of degree 7, rounded
  once. Like every conforming \<open>sin\<close> it maps zero to zero.
\<close>

definition sin_taylor :: "double \<Rightarrow> double" where
  "sin_taylor x =
     (case x of
        Fin q \<Rightarrow> rnd (q - q ^ 3 / 6 + q ^ 5 / 120 - q ^ 7 / 5040)
      | _ \<Rightarrow> NaN)"

text \<open>
  The same polynomial kept within \<open>[-1, 1]\<close> before it is rounded: it has the range of
  a sine on every finite argument and agrees with \<open>sin_taylor\<close> on small angles.
\<close>

definition sin_saturated :: "double \<Rightarrow> double" where
  "sin_saturated x =
     (case x of
        Fin q \<Rightarrow> rnd (max (- 1) (min 1 (q - q ^ 3 / 6 + q ^ 5 / 120 - q ^ 7 / 5040)))
      | _ \<Rightarrow> NaN)"

text \<open>
  An empty file system that accepts every path and up to 4096 bytes, with a stream that
  holds back up to 1067 bytes.
\<close>

definition blank_disk :: file_system where
  "blank_disk =
     \<lparr>files = (\<lambda>p. None), can_open = (\<lambda>p. True), capacity = 4096, buffer = 1067\<rparr>"

text \<open>A file system where \<open>audio.wav\<close> already exists, with other content.\<close>

definition used_disk :: file_system where
  "used_disk =
     \<lparr>files = (\<lambda>p. if p = ''audio.wav'' then Some [0x01, 0x02, 0x03] else None),
      can_open = (\<lambda>p. True), capacity = 100, buffer = 16\<rparr>"

text \<open>A device that takes no byte at all.\<close>

definition full_disk :: file_system where
  "full_disk =
     \<lparr>files = (\<lambda>p. None), can_open = (\<lambda>p. True), capacity = 0, buffer = 1067\<rparr>"

section \<open>Evaluating the rounding on numerals\<close>

lemma bit_length_0: "bit_length 0 = 0"
  by (simp add: bit_length.simps)

lemma bit_length_1: "bit_length (Suc 0) = Suc 0"
  by (simp add: bit_length.simps [of "Suc 0"] bit_length_0)

lemma bit_length_One: "bit_length (numeral Num.One) = Suc 0"
  by (simp add: bit_length_1)

lemma bit_length_Bit0: "bit_length (numeral (Num.Bit0 n)) = Suc (bit_length (numeral n))"
  by (simp add: bit_length.simps [of "numeral (Num.Bit0 n)"])

lemma bit_length_Bit1: "bit_length (numeral (Num.Bit1 n)) = Suc (bit_length (numeral n))"
proof -
  have "numeral (Num.Bit1 n) div (2 :: nat) = numeral n"
    by simp
  then show ?thesis
    by (simp add: bit_length.simps [of "numeral (Num.Bit1 n)"])
qed

lemma floor_rat_numeral: "\<lfloor>numeral a / numeral b :: rat\<rfloor> = numeral a div numeral b"
  using floor_divide_of_int_eq [of "numeral a" "numeral b", where ?'a = rat] by simp

lemma floor_rat_neg_numeral: "\<lfloor>- (numeral a / numeral b) :: rat\<rfloor> = - numeral a div numeral b"
  using floor_divide_of_int_eq [of "- numeral a" "numeral b", where ?'a = rat] by simp

lemma ceiling_rat_numeral: "\<lceil>numeral a / numeral b :: rat\<rceil> = - (- numeral a div numeral b)"
  by (simp add: ceiling_def floor_rat_neg_numeral)

lemma ceiling_rat_neg_numeral: "\<lceil>- (numeral a / numeral b) :: rat\<rceil> = - (numeral a div numeral b)"
  by (simp add: ceiling_def floor_rat_numeral)

lemmas rnd_eval = rnd_def ilog2_def pow2_def round_even_def Let_def
  bit_length_0 bit_length_1 bit_length_One bit_length_Bit0 bit_length_Bit1
  floor_rat_numeral floor_rat_neg_numeral ceiling_rat_numeral ceiling_rat_neg_numeral

lemmas conv_eval = to_u64_def to_u32_def to_i32_def trunc_def
  floor_rat_numeral floor_rat_neg_numeral ceiling_rat_numeral ceiling_rat_neg_numeral

section \<open>Properties of the rounding\<close>

lemma pow2_pos: "0 < pow2 k"
  by (simp add: pow2_def)

lemma round_even_nonneg: "0 \<le> m \<Longrightarrow> 0 \<le> round_even m"
  by (auto simp: round_even_def Let_def)

lemma rnd_magnitude_nonneg:
  "0 \<le> of_int (round_even (\<bar>x\<bar> / pow2 k)) * pow2 k"
proof -
  have "0 \<le> \<bar>x\<bar> / pow2 k" using pow2_pos [of k] by simp
  then have "0 \<le> round_even (\<bar>x\<bar> / pow2 k)" by (rule round_even_nonneg)
  then show ?thesis using pow2_pos [of k] by simp
qed

lemma rnd_sign:
  assumes "rnd x = Fin r"
  shows "(0 \<le> x \<longrightarrow> 0 \<le> r) \<and> (x \<le> 0 \<longrightarrow> r \<le> 0)"
proof (cases "x = 0")
  case True
  with assms show ?thesis by (simp add: rnd_def)
next
  case False
  define k where "k = max (ilog2 \<bar>x\<bar>) (- 1022) - 52"
  define m where "m = of_int (round_even (\<bar>x\<bar> / pow2 k)) * pow2 k"
  have m: "0 \<le> m" unfolding m_def by (rule rnd_magnitude_nonneg)
  from assms False have "r = sgn x * m"
    by (simp add: rnd_def Let_def k_def m_def split: if_splits)
  with m show ?thesis
    by (auto simp: sgn_if mult_nonneg_nonpos2 split: if_splits)
qed

subsection \<open>Rounding keeps integer bounds\<close>

lemma bit_length_le: "n < 2 ^ k \<Longrightarrow> bit_length n \<le> k"
proof (induction n arbitrary: k rule: bit_length.induct)
  case (1 n)
  show ?case
  proof (cases "n = 0")
    case True
    then show ?thesis by (simp add: bit_length_0)
  next
    case False
    with "1.prems" obtain k' where k: "k = Suc k'"
      by (cases k) auto
    with "1.prems" have "n div 2 < 2 ^ k'" by auto
    with "1.IH" [OF False] have "bit_length (n div 2) \<le> k'" by blast
    with False k show ?thesis
      by (simp add: bit_length.simps [of n])
  qed
qed

lemma ilog2_upper:
  assumes "0 < x" and "x < 2 ^ k" and "0 < k"
  shows "ilog2 x < int k"
proof (cases "1 \<le> x")
  case True
  from assms(2) have "of_int \<lfloor>x\<rfloor> < (2 ^ k :: rat)"
    using of_int_floor_le [of x] by linarith
  then have "\<lfloor>x\<rfloor> < 2 ^ k"
    by (metis of_int_less_iff of_int_numeral of_int_power)
  moreover from True have "0 \<le> \<lfloor>x\<rfloor>" by simp
  ultimately have "nat \<lfloor>x\<rfloor> < 2 ^ k"
    by (simp add: nat_less_iff)
  then have "bit_length (nat \<lfloor>x\<rfloor>) \<le> k" by (rule bit_length_le)
  moreover from True have "0 < \<lfloor>x\<rfloor>" by simp
  then have "nat \<lfloor>x\<rfloor> \<noteq> 0" by simp
  then have "0 < bit_length (nat \<lfloor>x\<rfloor>)"
    by (simp add: bit_length.simps [of "nat \<lfloor>x\<rfloor>"])
  ultimately show ?thesis using True by (simp add: ilog2_def)
next
  case False
  then have "ilog2 x \<le> 0" by (simp add: ilog2_def)
  with assms(3) show ?thesis by simp
qed

lemma round_even_le:
  assumes "m \<le> of_int N"
  shows "round_even m \<le> N"
proof -
  have f: "\<lfloor>m\<rfloor> \<le> N" using assms by (simp add: floor_le_iff) 
  show ?thesis
  proof (cases "m = of_int \<lfloor>m\<rfloor>")
    case True
    then have "m - of_int \<lfloor>m\<rfloor> = 0" by simp
    then have "round_even m = \<lfloor>m\<rfloor>" by (simp add: round_even_def Let_def)
    with f show ?thesis by simp
  next
    case False
    then have "of_int \<lfloor>m\<rfloor> < m" using of_int_floor_le [of m] by linarith
    with assms have "(of_int \<lfloor>m\<rfloor> :: rat) < of_int N" by linarith
    then have "\<lfloor>m\<rfloor> < N" by simp
    then have "\<lfloor>m\<rfloor> + 1 \<le> N" by simp
    moreover have "round_even m \<le> \<lfloor>m\<rfloor> + 1"
      by (simp add: round_even_def Let_def)
    ultimately show ?thesis by simp
  qed
qed

lemma rnd_bounded:
  assumes "\<bar>x\<bar> \<le> of_int B" and "B < 2 ^ 53"
  shows "\<exists>r. rnd x = Fin r \<and> \<bar>r\<bar> \<le> of_int B"
proof (cases "x = 0")
  case True
  with assms(1) show ?thesis by (simp add: rnd_def)
next
  case False
  define a where "a = \<bar>x\<bar>"
  define e where "e = max (ilog2 a) (- 1022)"
  define j where "j = nat (52 - e)"
  define M where "M = round_even (a / pow2 (e - 52))"
  from False have a0: "0 < a" by (simp add: a_def)
  from assms have "a < 2 ^ 53"
  proof -
    from assms(2) have "(of_int B :: rat) < of_int (2 ^ 53)"
      by (simp only: of_int_less_iff)
    with assms(1) show ?thesis by (simp add: a_def)
  qed
  with a0 have "ilog2 a < int 53" by (intro ilog2_upper) simp_all
  then have e52: "e \<le> 52" by (simp add: e_def)
  then have u: "pow2 (e - 52) = 1 / 2 ^ j"
    by (cases "e = 52") (simp_all add: pow2_def j_def)
  have "a / pow2 (e - 52) = a * 2 ^ j" by (simp add: u)
  also have "\<dots> \<le> of_int B * 2 ^ j"
    using assms(1) by (simp add: a_def)
  also have "\<dots> = of_int (B * 2 ^ j)" by simp
  finally have "M \<le> B * 2 ^ j" unfolding M_def by (rule round_even_le)
  then have "(of_int M :: rat) \<le> of_int (B * 2 ^ j)" by (simp only: of_int_le_iff)
  then have "(of_int M :: rat) \<le> of_int B * 2 ^ j" by simp
  then have upper: "of_int M * pow2 (e - 52) \<le> (of_int B :: rat)"
    by (simp add: u field_simps)
  have lower: "0 \<le> of_int M * pow2 (e - 52)"
    unfolding M_def a_def by (rule rnd_magnitude_nonneg)
  from assms(2) have "(of_int B :: rat) < of_int (2 ^ 53)"
    by (simp only: of_int_less_iff)
  also have "\<dots> \<le> pow2 1024" by (simp add: pow2_def)
  finally have "\<not> pow2 1024 \<le> of_int M * pow2 (e - 52)"
    using upper by simp
  with False have "rnd x = Fin (sgn x * (of_int M * pow2 (e - 52)))"
    by (simp add: rnd_def Let_def M_def e_def a_def)
  moreover have "\<bar>sgn x * (of_int M * pow2 (e - 52))\<bar> \<le> of_int B"
    using lower upper False by (simp add: abs_mult)
  ultimately show ?thesis by blast
qed

lemma trunc_bounded:
  assumes "\<bar>v\<bar> \<le> of_int B"
  shows "- B \<le> trunc v \<and> trunc v \<le> B"
proof -
  have "(0 :: rat) \<le> of_int B" using assms by linarith
  then have B0: "0 \<le> B" by simp
  show ?thesis
  proof (cases "0 \<le> v")
    case True
    then have low: "0 \<le> \<lfloor>v\<rfloor>" by simp
    from assms True have high: "\<lfloor>v\<rfloor> \<le> B"
      by (simp add: floor_le_iff)
    from True have "trunc v = \<lfloor>v\<rfloor>" by (simp add: trunc_def)
    with low high B0 show ?thesis by linarith
  next
    case False
    then have high: "\<lceil>v\<rceil> \<le> 0" by (simp add: ceiling_le_iff)
    from assms False have "of_int (- B) \<le> v" by simp
    then have low: "- B \<le> \<lceil>v\<rceil>" by (simp add: le_ceiling_iff)
    from False have "trunc v = \<lceil>v\<rceil>" by (simp add: trunc_def)
    with low high B0 show ?thesis by linarith
  qed
qed

lemma dmul_bounded:
  assumes "\<bar>a\<bar> \<le> of_int A" and "\<bar>b\<bar> \<le> of_int B" and "A * B < 2 ^ 53"
  shows "\<exists>r. dmul (Fin a) (Fin b) = Fin r \<and> \<bar>r\<bar> \<le> of_int (A * B)"
proof -
  have "0 \<le> \<bar>a\<bar>" and "0 \<le> \<bar>b\<bar>" by simp_all
  with assms(1,2) have "\<bar>a\<bar> * \<bar>b\<bar> \<le> of_int A * of_int B"
    by (intro mult_mono) linarith+
  then have "\<bar>a * b\<bar> \<le> of_int (A * B)" by (simp add: abs_mult)
  from rnd_bounded [OF this assms(3)] show ?thesis by (simp add: dmul.simps)
qed

lemma of_u32_bounded: "\<exists>q. of_u32 w = Fin q \<and> \<bar>q\<bar> \<le> of_int 4294967296"
proof -
  have "unat w < 2 ^ 32" using unsigned_less [of w] by simp
  then have "unat w \<le> 4294967296" by simp
  then have "(of_nat (unat w) :: rat) \<le> of_nat 4294967296"
    by (simp only: of_nat_le_iff)
  moreover have "\<bar>of_nat (unat w) :: rat\<bar> = of_nat (unat w)"
    by (rule abs_of_nonneg) (rule of_nat_0_le_iff)
  ultimately have "\<bar>of_nat (unat w) :: rat\<bar> \<le> of_nat 4294967296"
    by (simp only:)
  then have "\<bar>of_nat (unat w) :: rat\<bar> \<le> of_int 4294967296"
    by (simp only: of_nat_numeral of_int_numeral)
  then show ?thesis unfolding of_u32_def by blast
qed

subsection \<open>Rounding keeps lower bounds\<close>

lemma round_even_ge:
  assumes "of_int N \<le> m"
  shows "N \<le> round_even m"
proof -
  have "N \<le> \<lfloor>m\<rfloor>" using assms by (simp add: le_floor_iff)
  moreover have "\<lfloor>m\<rfloor> \<le> round_even m" by (simp add: round_even_def Let_def)
  ultimately show ?thesis by simp
qed

lemma ilog2_lower:
  assumes "1 \<le> x"
  shows "pow2 (ilog2 x) \<le> x"
proof -
  define n where "n = nat \<lfloor>x\<rfloor>"
  from assms have fl: "1 \<le> \<lfloor>x\<rfloor>" by simp
  then have n0: "n \<noteq> 0" by (simp add: n_def)
  then have "0 < bit_length n" by (simp add: bit_length.simps [of n])
  then obtain e where e: "bit_length n = Suc e" by (cases "bit_length n") auto
  have "\<not> n < 2 ^ e"
  proof
    assume "n < 2 ^ e"
    then have "bit_length n \<le> e" by (rule bit_length_le)
    with e show False by simp
  qed
  then have "2 ^ e \<le> n" by simp
  then have "int (2 ^ e) \<le> int n" by (simp only: of_nat_le_iff)
  then have "2 ^ e \<le> \<lfloor>x\<rfloor>" using fl by (simp add: n_def)
  then have "(of_int (2 ^ e) :: rat) \<le> of_int \<lfloor>x\<rfloor>" by (simp only: of_int_le_iff)
  also have "\<dots> \<le> x" by (rule of_int_floor_le)
  finally have "2 ^ e \<le> x" by simp
  moreover have "ilog2 x = int e" using assms e by (simp add: ilog2_def n_def)
  ultimately show ?thesis by (simp add: pow2_def)
qed

lemma rnd_lower:
  assumes "4294967296 \<le> x" and "rnd x = Fin r"
  shows "4294967296 \<le> r"
proof -
  from assms(1) have x0: "0 < x" by simp
  define e where "e = max (ilog2 x) (- 1022)"
  define u where "u = pow2 (e - 52)"
  define M where "M = round_even (x / u)"
  from x0 assms(2) have r: "r = of_int M * u"
    by (simp add: rnd_def Let_def e_def u_def M_def split: if_splits)
  have u0: "0 < u" unfolding u_def by (rule pow2_pos)
  show ?thesis
  proof (cases "e \<le> 52")
    case True
    define j where "j = nat (52 - e)"
    have u: "u = 1 / 2 ^ j"
      using True by (cases "e = 52") (simp_all add: u_def pow2_def j_def)
    have "4294967296 * 2 ^ j \<le> x * 2 ^ j" using assms(1) by simp
    then have "of_int (4294967296 * 2 ^ j) \<le> x / u" by (simp add: u)
    then have "4294967296 * 2 ^ j \<le> M" unfolding M_def by (rule round_even_ge)
    then have "(of_int (4294967296 * 2 ^ j) :: rat) \<le> of_int M" by (simp only: of_int_le_iff)
    then have "4294967296 * 2 ^ j \<le> (of_int M :: rat)" by simp
    then show ?thesis by (simp add: r u field_simps)
  next
    case False
    then have e: "52 < e" by simp
    then have il: "e = ilog2 x" by (simp add: e_def)
    from assms(1) have "1 \<le> x" by simp
    then have pe: "pow2 e \<le> x" unfolding il by (rule ilog2_lower)
    define i where "i = nat (e - 52)"
    have u: "u = 2 ^ i" using e by (simp add: u_def pow2_def i_def)
    from e have "nat e = 52 + i" by (simp add: i_def)
    with e have "pow2 e = 2 ^ 52 * 2 ^ i" by (simp add: pow2_def power_add)
    with pe have "2 ^ 52 * u \<le> x" by (simp only: u)
    then have "2 ^ 52 \<le> x / u" using u0 by (simp add: pos_le_divide_eq)
    then have "of_int (2 ^ 52) \<le> x / u" by simp
    then have "2 ^ 52 \<le> M" unfolding M_def by (rule round_even_ge)
    then have "(of_int (2 ^ 52) :: rat) \<le> of_int M" by (simp only: of_int_le_iff)
    then have M: "4503599627370496 \<le> (of_int M :: rat)" by simp
    have "(1 :: rat) \<le> u" by (simp add: u)
    with M have "4503599627370496 * 1 \<le> of_int M * u"
      by (intro mult_mono) simp_all
    then show ?thesis by (simp add: r)
  qed
qed

lemma rnd_bounded_half:
  assumes "\<bar>x\<bar> \<le> of_int B / 2" and "B < 2 ^ 53"
  shows "\<exists>r. rnd x = Fin r \<and> \<bar>r\<bar> \<le> of_int B / 2"
proof (cases "x = 0")
  case True
  with assms(1) show ?thesis by (simp add: rnd_def)
next
  case False
  define a where "a = \<bar>x\<bar>"
  define e where "e = max (ilog2 a) (- 1022)"
  define j where "j = nat (51 - e)"
  define M where "M = round_even (a / pow2 (e - 52))"
  from False have a0: "0 < a" by (simp add: a_def)
  from assms(2) have B: "(of_int B :: rat) < of_int (2 ^ 53)"
    by (simp only: of_int_less_iff)
  with assms(1) have "a < 2 ^ 52" by (simp add: a_def)
  with a0 have "ilog2 a < int 52" by (intro ilog2_upper) simp_all
  then have e51: "e \<le> 51" by (simp add: e_def)
  then have "nat (52 - e) = Suc j" by (simp add: j_def)
  with e51 have u: "pow2 (e - 52) = 1 / 2 ^ Suc j"
    by (simp add: pow2_def)
  have "a / pow2 (e - 52) = a * 2 ^ Suc j" by (simp add: u)
  also have "\<dots> \<le> (of_int B / 2) * 2 ^ Suc j"
    using assms(1) by (simp add: a_def)
  also have "\<dots> = of_int (B * 2 ^ j)" by simp
  finally have "M \<le> B * 2 ^ j" unfolding M_def by (rule round_even_le)
  then have "(of_int M :: rat) \<le> of_int (B * 2 ^ j)" by (simp only: of_int_le_iff)
  then have "(of_int M :: rat) \<le> of_int B * 2 ^ j" by simp
  then have upper: "of_int M * pow2 (e - 52) \<le> (of_int B / 2 :: rat)"
    by (simp add: u field_simps)
  have lower: "0 \<le> of_int M * pow2 (e - 52)"
    unfolding M_def a_def by (rule rnd_magnitude_nonneg)
  from B have "(of_int B / 2 :: rat) < of_int (2 ^ 53)" using assms(1) by simp
  also have "\<dots> \<le> pow2 1024" by (simp add: pow2_def)
  finally have "\<not> pow2 1024 \<le> of_int M * pow2 (e - 52)"
    using upper by simp
  with False have "rnd x = Fin (sgn x * (of_int M * pow2 (e - 52)))"
    by (simp add: rnd_def Let_def M_def e_def a_def)
  moreover have "\<bar>sgn x * (of_int M * pow2 (e - 52))\<bar> \<le> of_int B / 2"
    using lower upper False by (simp add: abs_mult)
  ultimately show ?thesis by blast
qed

subsection \<open>Zero\<close>

lemma of_u32_zero: "of_u32 0 = Fin 0"
  by (simp add: of_u32_def)

lemma dmul_zero_right: "dmul (Fin x) (Fin 0) = Fin 0"
  by (simp add: dmul.simps rnd_def)

lemma dmul_zero_left: "dmul (Fin 0) (Fin x) = Fin 0"
  by (simp add: dmul.simps rnd_def)

lemma to_i32_zero: "to_i32 (Fin 0) = Some 0"
  by (simp add: to_i32_def trunc_def)

section \<open>The sample encoding\<close>

lemma ff_mask: "(0xFF :: 32 word) = mask 8"
  by (simp add: mask_eq_exp_minus_1)

lemma byte0_word: "(ucast ((v :: i32) AND 0xFF) :: u8) = word_of_int (sint v)"
  unfolding ff_mask
  by (rule bit_word_eqI) (auto simp: bit_simps bit_sint_iff)

lemma byte1_word:
  "(ucast (signed_drop_bit 8 (v :: i32) AND 0xFF) :: u8) = word_of_int (drop_bit 8 (sint v))"
  unfolding ff_mask
  by (rule bit_word_eqI) (auto simp: bit_simps bit_sint_iff bit_signed_drop_bit_iff)

lemma byte2_word:
  "(ucast (signed_drop_bit 16 (v :: i32) AND 0xFF) :: u8) = word_of_int (drop_bit 16 (sint v))"
  unfolding ff_mask
  by (rule bit_word_eqI) (auto simp: bit_simps bit_sint_iff bit_signed_drop_bit_iff)

lemma uint_byte_of_int: "uint (word_of_int k :: u8) = k mod 256"
  by (simp add: uint_word_of_int)

lemma sample_bytes_uint:
  "map uint (sample_bytes v) =
     [sint v mod 256, sint v div 256 mod 256, sint v div 65536 mod 256]"
proof -
  have "uint (ucast (v AND 0xFF) :: u8) = sint v mod 256"
    by (simp only: byte0_word uint_byte_of_int)
  moreover have "uint (ucast (signed_drop_bit 8 v AND 0xFF) :: u8) = sint v div 256 mod 256"
    by (simp only: byte1_word uint_byte_of_int drop_bit_eq_div) simp
  moreover have "uint (ucast (signed_drop_bit 16 v AND 0xFF) :: u8) = sint v div 65536 mod 256"
    by (simp only: byte2_word uint_byte_of_int drop_bit_eq_div) simp
  ultimately show ?thesis
    by (simp only: sample_bytes_def list.map)
qed

lemma little_endian24:
  "k mod 256 + 256 * (k div 256 mod 256) + 65536 * (k div 65536 mod 256)
     = (k :: int) mod 16777216"
proof -
  have a: "k mod (256 * 256) = 256 * (k div 256 mod 256) + k mod 256"
    by (rule zmod_zmult2_eq) simp
  have b: "k mod (65536 * 256) = 65536 * (k div 65536 mod 256) + k mod 65536"
    by (rule zmod_zmult2_eq) simp
  from a b show ?thesis by simp
qed

lemma signed_representative24:
  "(if (k :: int) mod 16777216 < 8388608 then k mod 16777216 else k mod 16777216 - 16777216)
     = (k + 8388608) mod 16777216 - 8388608"
proof -
  define m where "m = k mod 16777216"
  define q where "q = k div 16777216"
  have k: "k = 16777216 * q + m" by (simp add: m_def q_def)
  have m0: "0 \<le> m" and m1: "m < 16777216" by (simp_all add: m_def)
  show ?thesis
  proof (cases "m < 8388608")
    case True
    have "(k + 8388608) mod 16777216 = m + 8388608"
      by (rule int_mod_pos_eq [where q = q]) (use k m0 True in simp_all)
    with True show ?thesis by (simp add: m_def)
  next
    case False
    have "(k + 8388608) mod 16777216 = m - 8388608"
      by (rule int_mod_pos_eq [where q = "q + 1"]) (use k m1 False in simp_all)
    with False show ?thesis by (simp add: m_def)
  qed
qed

lemma representative24_fixpoint:
  "((k :: int) + 8388608) mod 16777216 - 8388608 = k \<longleftrightarrow> - 8388608 \<le> k \<and> k \<le> 8388607"
proof
  assume a: "(k + 8388608) mod 16777216 - 8388608 = k"
  have "0 \<le> (k + 8388608) mod 16777216" and "(k + 8388608) mod 16777216 < 16777216"
    by simp_all
  with a show "- 8388608 \<le> k \<and> k \<le> 8388607" by linarith
next
  assume "- 8388608 \<le> k \<and> k \<le> 8388607"
  then have "(k + 8388608) mod 16777216 = k + 8388608"
    by (intro mod_pos_pos_trivial) simp_all
  then show "(k + 8388608) mod 16777216 - 8388608 = k" by simp
qed

lemma decode24_sample_bytes:
  "decode24 (sample_bytes v) = Some ((sint v + 8388608) mod 16777216 - 8388608)"
proof -
  obtain b0 b1 b2 where bs: "sample_bytes v = [b0, b1, b2]"
    by (simp add: sample_bytes_def)
  with sample_bytes_uint [of v]
  have u: "uint b0 = sint v mod 256" "uint b1 = sint v div 256 mod 256"
    "uint b2 = sint v div 65536 mod 256"
    by simp_all
  have "uint b0 + 256 * uint b1 + 65536 * uint b2 = sint v mod 16777216"
    unfolding u by (rule little_endian24)
  then have "decode24 (sample_bytes v) =
      Some (if sint v mod 16777216 < 8388608 then sint v mod 16777216
            else sint v mod 16777216 - 16777216)"
    by (simp add: bs Let_def)
  then show ?thesis
    by (simp only: signed_representative24)
qed

text \<open>
  The three bytes of a sample \<open>v\<close> are, as numbers, the three base-256 digits of \<open>v\<close>
  and together its low 24 bits; \<open>2^23\<close> becomes \<open>00 00 80\<close>, where the saturated value
  \<open>2^23 - 1\<close> would be \<open>FF FF 7F\<close>.
\<close>

lemma sample_bytes_low24:
  "sample_bytes v =
     [ucast (v AND 0xFF), ucast (signed_drop_bit 8 v AND 0xFF),
      ucast (signed_drop_bit 16 v AND 0xFF)]
   \<and> map uint (sample_bytes v) =
       [sint v mod 256, sint v div 256 mod 256, sint v div 65536 mod 256]
   \<and> (\<Sum>i < 3. uint (sample_bytes v ! i) * 256 ^ i) = sint v mod 2 ^ 24
   \<and> sample_bytes 8388608 = [0x00, 0x00, 0x80]
   \<and> sample_bytes (word_of_int (clamp24 8388608)) = [0xFF, 0xFF, 0x7F]"
proof -
  have digits: "map uint (sample_bytes v) =
      [sint v mod 256, sint v div 256 mod 256, sint v div 65536 mod 256]"
    by (rule sample_bytes_uint)
  obtain b0 b1 b2 where bs: "sample_bytes v = [b0, b1, b2]"
    by (simp add: sample_bytes_def)
  with digits have u: "uint b0 = sint v mod 256" "uint b1 = sint v div 256 mod 256"
    "uint b2 = sint v div 65536 mod 256"
    by simp_all
  have "(\<Sum>i < 3. uint (sample_bytes v ! i) * 256 ^ i)
          = uint b0 + 256 * uint b1 + 65536 * uint b2"
    by (simp add: bs numeral_3_eq_3)
  also have "\<dots> = sint v mod 2 ^ 24"
    unfolding u using little_endian24 [of "sint v"] by simp
  finally have low24: "(\<Sum>i < 3. uint (sample_bytes v ! i) * 256 ^ i) = sint v mod 2 ^ 24" .
  have top: "sample_bytes 8388608 = [0x00, 0x00, 0x80]"
    by (simp add: sample_bytes_def)
  have sat: "sample_bytes (word_of_int (clamp24 8388608)) = [0xFF, 0xFF, 0x7F]"
    by (simp add: sample_bytes_def clamp24_def)
  from digits low24 top sat show ?thesis
    by (simp add: sample_bytes_def)
qed

text \<open>
  C10, as amended. Decoding the three bytes of a sample \<open>v\<close> gives the representative of
  \<open>v\<close> modulo \<open>2^24\<close> in the signed 24-bit range, and this is \<open>v\<close> again exactly when
  \<open>-2^23 \<le> v \<le> 2^23 - 1\<close>.
\<close>

theorem sample_round_trip:
  "decode24 (sample_bytes v) = Some ((sint v + 2 ^ 23) mod 2 ^ 24 - 2 ^ 23)
   \<and> (decode24 (sample_bytes v) = Some (sint v) \<longleftrightarrow> - (2 ^ 23) \<le> sint v \<and> sint v \<le> 2 ^ 23 - 1)"
  using representative24_fixpoint [of "sint v"]
  by (simp add: decode24_sample_bytes)

theorem sample_round_trip_witness:
  "decode24 (sample_bytes 1000) = Some (sint (1000 :: i32))
   \<and> - (2 ^ 23) \<le> sint (1000 :: i32) \<and> sint (1000 :: i32) \<le> 2 ^ 23 - 1"
  using sample_round_trip [of 1000] by simp

text \<open>
  The claim as written ends with "the round-trip holds exactly when \<open>|v| < 2^23\<close>".
  At \<open>v = -2^23\<close> the round trip holds although \<open>|v| = 2^23\<close>.
\<close>

theorem sample_round_trip_counterexample:
  "decode24 (sample_bytes (- 8388608)) = Some (sint (- 8388608 :: i32))
   \<and> \<not> \<bar>sint (- 8388608 :: i32)\<bar> < 2 ^ 23"
  by (simp add: sample_bytes_def)

lemma sample_bytes_zero: "sample_bytes 0 = [0x00, 0x00, 0x00]"
  by (simp add: sample_bytes_def)

lemma sample_bytes_second: "sample_bytes 3915785 = [0x09, 0xC0, 0x3B]"
  by (simp add: sample_bytes_def)

lemma length_concat_sample_bytes:
  "length (concat (map (\<lambda>k. sample_bytes (s k)) ks)) = 3 * length ks"
  by (induction ks) (simp_all add: sample_bytes_def)

section \<open>The header\<close>

lemma format_fields_eval:
  "format_fields =
     \<lparr>file_type_bloc_id = [0x52, 0x49, 0x46, 0x46], file_size = 0,
      file_format_id = [0x57, 0x41, 0x56, 0x45], format_bloc_id = [0x66, 0x6D, 0x74, 0x20],
      bloc_size = 16, audio_format = 1, channel_count = 1, sample_rate = 48000,
      bytes_per_sec = 144000, bytes_per_bloc = 3, bits_per_sample = 24,
      data_bloc_id = [0x64, 0x61, 0x74, 0x61], data_size = 0\<rparr>"
  by (simp add: format_fields_def zero_header_def ascii_def k_header_bloc_size_def
        k_audio_format_PCM_def k_channel_count_mono_def k_sample_rate_def
        k_bits_per_sample_def Let_def)

lemma byte_rate_double: "of_u32 (bytes_per_sec format_fields) = Fin 144000"
  by (simp add: format_fields_eval of_u32_def)

lemma wave_header_struct_cases:
  "wave_header_struct d =
     (case to_u64 (dmul d (Fin 144000)) of
        None \<Rightarrow> Undefined
      | Some n \<Rightarrow>
          if 0xFFFFFFFF < n then Throws overflow_error
          else Returns (format_fields\<lparr>data_size := ucast n, file_size := ucast n + 36\<rparr>))"
  by (simp add: wave_header_struct_def byte_rate_double Let_def UINT32_MAX_def
        k_header_size_def split: option.splits)

lemma create_wave_header_cases:
  "create_wave_header d =
     (case to_u64 (dmul d (Fin 144000)) of
        None \<Rightarrow> Undefined
      | Some n \<Rightarrow>
          if 0xFFFFFFFF < n then Throws overflow_error
          else Returns (take 44 (object_bytes
                 (format_fields\<lparr>data_size := ucast n, file_size := ucast n + 36\<rparr>))))"
  by (simp add: create_wave_header_def wave_header_struct_cases k_header_size_def
        split: option.splits)

lemma size_of_nonpositive_duration:
  assumes "dle d (Fin 0)" and "to_u64 (dmul d (Fin 144000)) = Some n"
  shows "n = 0"
proof (cases d)
  case (Fin q)
  with assms(1) have q: "q * 144000 \<le> 0" by simp
  from assms(2) Fin obtain r where r: "rnd (q * 144000) = Fin r"
    by (cases "rnd (q * 144000)") (simp_all add: to_u64_def dmul.simps)
  with rnd_sign [OF r] q have "r \<le> 0" by simp
  then have "trunc r \<le> 0" by (simp add: trunc_def ceiling_le_zero)
  with assms(2) Fin r show ?thesis
    by (auto simp: to_u64_def dmul.simps split: if_splits)
next
  case PInf
  with assms(1) show ?thesis by simp
next
  case NInf
  with assms(2) show ?thesis by (simp add: to_u64_def dmul.simps)
next
  case NaN
  with assms(1) show ?thesis by simp
qed

lemma header_fields:
  assumes "wave_header_struct d = Returns h"
  shows "bytes_per_sec h = 144000"
    and "bytes_per_bloc h = 3"
    and "unat (bytes_per_bloc h) = unat (channel_count h) * unat (bits_per_sample h) div 8"
    and "unat (bytes_per_sec h) = unat (sample_rate h) * unat (bytes_per_bloc h)"
    and "file_size h = 44 + data_size h - 8"
    and "length (object_bytes h) = 44"
proof -
  from assms
  have "\<exists>n :: u64. h = format_fields\<lparr>data_size := ucast n, file_size := ucast n + 36\<rparr>"
    by (cases "to_u64 (dmul d (Fin 144000))")
       (auto simp: wave_header_struct_cases split: if_splits)
  then obtain n :: u64
    where h: "h = format_fields\<lparr>data_size := ucast n, file_size := ucast n + 36\<rparr>" ..
  show "bytes_per_sec h = 144000" and "bytes_per_bloc h = 3"
    and "unat (bytes_per_bloc h) = unat (channel_count h) * unat (bits_per_sample h) div 8"
    and "unat (bytes_per_sec h) = unat (sample_rate h) * unat (bytes_per_bloc h)"
    and "file_size h = 44 + data_size h - 8"
    and "length (object_bytes h) = 44"
    by (simp_all add: h format_fields_eval object_bytes_def bytes32_def bytes16_def)
qed

lemma file_size_exact:
  assumes "wave_header_struct d = Returns h" and "unat (data_size h) \<le> 4294967259"
  shows "unat (file_size h) = 44 + unat (data_size h) - 8"
proof -
  from assms(1) have "file_size h = data_size h + 36"
    using header_fields(5) [OF assms(1)] by simp
  then have "unat (file_size h) = (unat (data_size h) + 36) mod 2 ^ 32"
    by (simp add: unat_word_ariths)
  with assms(2) show ?thesis by simp
qed

subsection \<open>Headers of particular durations\<close>

lemma product_short: "dmul (Fin (1 / 65536)) (Fin 144000) = Fin (1125 / 512)"
  by (simp add: dmul.simps rnd_eval)

lemma product_long: "dmul (Fin 30000) (Fin 144000) = Fin 4320000000"
  by (simp add: dmul.simps rnd_eval)

lemma product_huge:
  "dmul (Fin 18446744073709551616) (Fin 144000) = Fin 2656331146614175432704000"
  by (simp add: dmul.simps rnd_eval)

lemma size_short: "to_u64 (dmul (Fin (1 / 65536)) (Fin 144000)) = Some 2"
  by (simp add: product_short conv_eval)

lemma size_long: "to_u64 (dmul (Fin 30000) (Fin 144000)) = Some 4320000000"
  by (simp add: product_long conv_eval)

lemma size_huge: "to_u64 (dmul (Fin 18446744073709551616) (Fin 144000)) = None"
  by (simp add: product_huge conv_eval)

lemma header_short:
  "create_wave_header (Fin (1 / 65536)) =
     Returns [0x52, 0x49, 0x46, 0x46, 0x26, 0, 0, 0, 0x57, 0x41, 0x56, 0x45,
              0x66, 0x6D, 0x74, 0x20, 0x10, 0, 0, 0, 1, 0, 1, 0,
              0x80, 0xBB, 0, 0, 0x80, 0x32, 0x02, 0, 3, 0, 0x18, 0,
              0x64, 0x61, 0x74, 0x61, 2, 0, 0, 0]"
  by (simp add: create_wave_header_cases size_short format_fields_eval object_bytes_def
        bytes32_def bytes16_def)

lemma product_zero: "dmul (Fin 0) (Fin 144000) = Fin 0"
  by (simp add: dmul.simps rnd_def)

lemma header_zero:
  "create_wave_header (Fin 0) =
     Returns [0x52, 0x49, 0x46, 0x46, 0x24, 0, 0, 0, 0x57, 0x41, 0x56, 0x45,
              0x66, 0x6D, 0x74, 0x20, 0x10, 0, 0, 0, 1, 0, 1, 0,
              0x80, 0xBB, 0, 0, 0x80, 0x32, 0x02, 0, 3, 0, 0x18, 0,
              0x64, 0x61, 0x74, 0x61, 0, 0, 0, 0]"
  by (simp add: create_wave_header_cases product_zero to_u64_def trunc_def format_fields_eval
        object_bytes_def bytes32_def bytes16_def)

lemma header_long: "create_wave_header (Fin 30000) = Throws overflow_error"
  by (simp add: create_wave_header_cases size_long)

lemma size_one_second: "to_u64 (dmul (Fin 1) (Fin 144000)) = Some 144000"
  by (simp add: dmul.simps rnd_eval conv_eval)

lemma header_one_second:
  "create_wave_header (Fin 1) =
     Returns [0x52, 0x49, 0x46, 0x46, 0xA4, 0x32, 0x02, 0, 0x57, 0x41, 0x56, 0x45,
              0x66, 0x6D, 0x74, 0x20, 0x10, 0, 0, 0, 1, 0, 1, 0,
              0x80, 0xBB, 0, 0, 0x80, 0x32, 0x02, 0, 3, 0, 0x18, 0,
              0x64, 0x61, 0x74, 0x61, 0x80, 0x32, 0x02, 0]"
  by (simp add: create_wave_header_cases size_one_second format_fields_eval object_bytes_def
        bytes32_def bytes16_def)

lemma struct_one_second:
  "wave_header_struct (Fin 1) =
     Returns (format_fields\<lparr>data_size := 144000, file_size := 144036\<rparr>)"
  by (simp add: wave_header_struct_cases size_one_second)

lemma product_boundary:
  "dmul (Fin (61083979 / 2048)) (Fin 144000) = Fin (68719476375 / 16)"
  by (simp add: dmul.simps rnd_eval)

lemma size_boundary: "to_u64 (dmul (Fin (61083979 / 2048)) (Fin 144000)) = Some 4294967273"
  by (simp add: product_boundary conv_eval)

text \<open>
  C3. For \<open>29826.16162109375\<close> seconds (\<open>61083979 / 2048\<close>) the data size is 4294967273,
  which passes the overflow check, and \<open>44 + 4294967273 - 8\<close> wraps in \<open>uint32_t\<close>: the
  file size field holds 13, not 4294967309.
\<close>

theorem file_size_field_wraps:
  "wave_header_struct (Fin (61083979 / 2048)) =
     Returns (format_fields\<lparr>data_size := 4294967273, file_size := 13\<rparr>)
   \<and> create_wave_header (Fin (61083979 / 2048)) =
     Returns [0x52, 0x49, 0x46, 0x46, 0x0D, 0, 0, 0, 0x57, 0x41, 0x56, 0x45,
              0x66, 0x6D, 0x74, 0x20, 0x10, 0, 0, 0, 1, 0, 1, 0,
              0x80, 0xBB, 0, 0, 0x80, 0x32, 0x02, 0, 3, 0, 0x18, 0,
              0x64, 0x61, 0x74, 0x61, 0xE9, 0xFF, 0xFF, 0xFF]
   \<and> 44 + unat (4294967273 :: u32) - 8 = 4294967309"
  by (simp add: wave_header_struct_cases create_wave_header_cases size_boundary
        format_fields_eval object_bytes_def bytes32_def bytes16_def)

section \<open>The signal source\<close>

lemma get_sample_no_throw: "get_sample lsin g i \<noteq> Throws e"
  by (simp add: get_sample_def Let_def split: option.splits)

lemma two_pi: "dmul (Fin 2) k_PI = Fin (884279719003555 / 140737488355328)"
  by (simp add: k_PI_def dmul.simps rnd_eval)

lemma time_increment_48k:
  "ddiv (Fin 1) (of_u32 48000) = Fin (6148914691236517 / 295147905179352825856)"
  by (simp add: of_u32_def ddiv.simps rnd_eval)

lemma angular_frequency_1k:
  "dmul (dmul (Fin 2) k_PI) (of_u32 1000) = Fin (6908435304715273 / 1099511627776)"
  by (simp add: two_pi of_u32_def dmul.simps rnd_eval)

lemma get_sample_first:
  assumes "lsin (Fin 0) = Fin 0"
  shows "get_sample lsin \<lparr>m_amplitude = a, m_frequency = 1000, m_sample_rate = 48000\<rparr> 0
           = Returns 0"
proof -
  have "dmul (of_u32 0) (ddiv (Fin 1) (of_u32 48000)) = Fin 0"
    by (simp only: time_increment_48k of_u32_zero dmul_zero_left)
  moreover have "dmul (dmul (dmul (Fin 2) k_PI) (of_u32 1000)) (Fin 0) = Fin 0"
    by (simp only: angular_frequency_1k dmul_zero_right)
  moreover have "dmul (of_u32 a) (Fin 0) = Fin 0"
    by (simp only: of_u32_def dmul_zero_right)
  ultimately show ?thesis
    using assms by (simp add: get_sample_def Let_def to_i32_zero)
qed

lemma sin_taylor_zero: "sin_taylor (Fin 0) = Fin 0"
  by (simp add: sin_taylor_def rnd_def)

lemma sample_time_one:
  "dmul (of_u32 1) (ddiv (Fin 1) (of_u32 48000)) = Fin (6148914691236517 / 295147905179352825856)"
  by (simp only: time_increment_48k) (simp add: of_u32_def dmul.simps rnd_eval)

lemma angle_one:
  "dmul (dmul (dmul (Fin 2) k_PI) (of_u32 1000)) (Fin (6148914691236517 / 295147905179352825856))
     = Fin (4716158501352293 / 36028797018963968)"
  by (simp only: angular_frequency_1k) (simp add: dmul.simps rnd_eval)

lemma sin_taylor_one:
  "sin_taylor (Fin (4716158501352293 / 36028797018963968))
     = Fin (293918855322087 / 2251799813685248)"
  by (simp add: sin_taylor_def power_divide rnd_eval)

lemma scaled_one:
  "dmul (of_u32 k_amplitude) (Fin (293918855322087 / 2251799813685248))
     = Fin (2102271475711491 / 536870912)"
  by (simp add: of_u32_def k_amplitude_def dmul.simps rnd_eval)

lemma get_sample_second:
  "get_sample sin_taylor \<lparr>m_amplitude = k_amplitude, m_frequency = 1000,
                            m_sample_rate = 48000\<rparr> 1 = Returns 3915785"
  by (simp only: get_sample_def Let_def sine_wave_generator.simps sample_time_one angle_one
        sin_taylor_one scaled_one)
     (simp add: conv_eval)

text \<open>
  With a \<open>sin\<close> that stays within \<open>[-1, 1]\<close> on finite arguments and an amplitude
  below \<open>2^31\<close>, every sample of the generator is defined: the angle is finite and the
  scaled value is at most the amplitude.
\<close>

lemma get_sample_defined:
  assumes bounded: "\<And>q. \<exists>r. lsin (Fin q) = Fin r \<and> \<bar>r\<bar> \<le> 1"
    and amplitude: "unat a < 2 ^ 31"
  shows "\<exists>s. get_sample lsin \<lparr>m_amplitude = a, m_frequency = f,
                                  m_sample_rate = k_sample_rate\<rparr> i = Returns s"
proof -
  obtain qi where qi: "of_u32 i = Fin qi" "\<bar>qi\<bar> \<le> of_int 4294967296"
    using of_u32_bounded [of i] by blast
  obtain qf where qf: "of_u32 f = Fin qf" "\<bar>qf\<bar> \<le> of_int 4294967296"
    using of_u32_bounded [of f] by blast
  have st_bound: "\<bar>qi * (6148914691236517 / 295147905179352825856)\<bar> \<le> of_int 89479"
  proof -
    have "\<bar>qi * (6148914691236517 / 295147905179352825856)\<bar>
            = \<bar>qi\<bar> * (6148914691236517 / 295147905179352825856)"
      by (simp add: abs_mult)
    also have "\<dots> \<le> 4294967296 * (6148914691236517 / 295147905179352825856)"
      using qi(2) by (intro mult_right_mono) simp_all
    also have "\<dots> \<le> of_int 89479" by simp
    finally show ?thesis .
  qed
  from rnd_bounded [OF st_bound]
  obtain st where st: "dmul (of_u32 i) (ddiv (Fin 1) (of_u32 k_sample_rate)) = Fin st"
      "\<bar>st\<bar> \<le> of_int 89479"
    unfolding k_sample_rate_def time_increment_48k qi(1) by (auto simp: dmul.simps)
  have "\<bar>884279719003555 / 140737488355328 :: rat\<bar> \<le> of_int 7" by simp
  from dmul_bounded [OF this qf(2)]
  obtain w where w: "dmul (dmul (Fin 2) k_PI) (of_u32 f) = Fin w"
      "\<bar>w\<bar> \<le> of_int (7 * 4294967296)"
    unfolding two_pi qf(1) by auto
  from dmul_bounded [OF w(2) st(2)]
  obtain ang where ang: "dmul (Fin w) (Fin st) = Fin ang"
    by auto
  from bounded [of ang] obtain r where r: "lsin (Fin ang) = Fin r" "\<bar>r\<bar> \<le> of_int 1"
    by auto
  define A where "A = int (unat a)"
  from amplitude have "int (unat a) < int (2 ^ 31)" by (simp only: of_nat_less_iff)
  then have A: "A < 2147483648" by (simp add: A_def)
  then have A1: "A * 1 < 2 ^ 53" by simp
  have "0 \<le> A" unfolding A_def by (rule of_nat_0_le_iff)
  then have "\<bar>of_int A :: rat\<bar> \<le> of_int A" by simp
  from dmul_bounded [OF this r(2) A1]
  obtain v where v: "dmul (Fin (of_int A)) (Fin r) = Fin v" "\<bar>v\<bar> \<le> of_int A"
    by auto
  have a: "of_u32 a = Fin (of_int A)"
    by (simp add: of_u32_def A_def)
  from trunc_bounded [OF v(2)] A have "to_i32 (Fin v) = Some (word_of_int (trunc v))"
    by (simp add: to_i32_def)
  then show ?thesis
    by (simp add: get_sample_def Let_def st(1) w(1) ang r(1) a v(1))
qed

section \<open>The sample loop\<close>

lemma wave_loop_no_throw: "wave_loop lsin g i n acc \<noteq> Throws e"
proof (induction lsin g i n acc rule: wave_loop.induct)
  case (1 lsin g i n acc)
  show ?case
  proof (cases "i < n")
    case False
    then show ?thesis by (simp add: wave_loop.simps [of lsin g i n acc])
  next
    case True
    show ?thesis
    proof (cases "get_sample lsin g i")
      case (Returns s)
      with True "1.IH" [of s] show ?thesis
        by (simp add: wave_loop.simps [of lsin g i n acc])
    next
      case (Throws e')
      with get_sample_no_throw show ?thesis by blast
    next
      case Undefined
      with True show ?thesis by (simp add: wave_loop.simps [of lsin g i n acc])
    qed
  qed
qed

lemma create_wave_data_no_throw: "create_wave_data lsin f d \<noteq> Throws e"
  by (simp add: create_wave_data_def Let_def wave_loop_no_throw split: option.splits)

lemma u32_of_nat_unat: "k < 2 ^ 32 \<Longrightarrow> unat (word_of_nat k :: u32) = k"
  by (simp add: unat_of_nat)

lemma wave_loop_returns:
  assumes "i \<le> unat n"
    and "\<forall>k. i \<le> k \<and> k < unat n \<longrightarrow> get_sample lsin g (word_of_nat k) = Returns (s k)"
  shows "wave_loop lsin g (word_of_nat i) n acc =
           Returns (acc @ concat (map (\<lambda>k. sample_bytes (s k)) [i..<unat n]))"
  using assms
proof (induction "unat n - i" arbitrary: i acc)
  case 0
  then have "i = unat n" by simp
  then have "word_of_nat i = n" by simp
  then show ?case
    using \<open>i = unat n\<close> by (simp add: wave_loop.simps [of lsin g n n acc])
next
  case (Suc m)
  then have below: "i < unat n" by simp
  have n32: "unat n < 2 ^ 32" using unsigned_less [of n] by simp
  with below have i32: "i < 2 ^ 32" by simp
  then have ui: "unat (word_of_nat i :: u32) = i" by (rule u32_of_nat_unat)
  with below have less: "(word_of_nat i :: u32) < n" by (simp add: word_less_nat_alt)
  from Suc.prems(2) below have here: "get_sample lsin g (word_of_nat i) = Returns (s i)"
    by simp
  have step: "(word_of_nat i :: u32) + 1 = word_of_nat (Suc i)" by simp
  have "wave_loop lsin g (word_of_nat i + 1) n (acc @ sample_bytes (s i)) =
          Returns ((acc @ sample_bytes (s i)) @
                   concat (map (\<lambda>k. sample_bytes (s k)) [Suc i..<unat n]))"
    unfolding step
  proof (rule Suc.hyps(1))
    show "m = unat n - Suc i" using Suc.hyps(2) by simp
    show "Suc i \<le> unat n" using below by simp
    show "\<forall>k. Suc i \<le> k \<and> k < unat n \<longrightarrow> get_sample lsin g (word_of_nat k) = Returns (s k)"
      using Suc.prems(2) by simp
  qed
  moreover have "[i..<unat n] = i # [Suc i..<unat n]"
    using below by (rule upt_conv_Cons)
  ultimately show ?case
    using less here by (simp add: wave_loop.simps [of lsin g "word_of_nat i" n acc])
qed

lemma wave_loop_extends:
  "wave_loop lsin g i n acc = Returns bytes \<Longrightarrow> take (length acc) bytes = acc"
proof (induction lsin g i n acc rule: wave_loop.induct)
  case (1 lsin g i n acc)
  show ?case
  proof (cases "i < n")
    case False
    with "1.prems" show ?thesis by (simp add: wave_loop.simps [of lsin g i n acc])
  next
    case True
    show ?thesis
    proof (cases "get_sample lsin g i")
      case (Returns s)
      with True "1.prems" have "wave_loop lsin g (i + 1) n (acc @ sample_bytes s) = Returns bytes"
        by (simp add: wave_loop.simps [of lsin g i n acc])
      with "1.IH" [OF True Returns] have "take (length (acc @ sample_bytes s)) bytes = acc @ sample_bytes s"
        by simp
      then have "take (length acc) (take (length (acc @ sample_bytes s)) bytes) = take (length acc) (acc @ sample_bytes s)"
        by simp
      then show ?thesis by (simp add: min_def)
    next
      case (Throws e)
      with True "1.prems" show ?thesis by (simp add: wave_loop.simps [of lsin g i n acc])
    next
      case Undefined
      with True "1.prems" show ?thesis by (simp add: wave_loop.simps [of lsin g i n acc])
    qed
  qed
qed

lemma sample_rate_double: "of_u32 k_sample_rate = Fin 48000"
  by (simp add: of_u32_def k_sample_rate_def)

lemma samples_short: "dmul (of_u32 k_sample_rate) (Fin (1 / 65536)) = Fin (375 / 512)"
  by (simp add: of_u32_def k_sample_rate_def dmul.simps rnd_eval)

lemma count_short: "to_u32 (dmul (of_u32 k_sample_rate) (Fin (1 / 65536))) = Some 0"
  by (simp only: samples_short) (simp add: conv_eval)

lemma data_short: "create_wave_data lsin f (Fin (1 / 65536)) = Returns []"
  by (simp only: create_wave_data_def count_short Let_def option.case)
     (simp add: wave_loop.simps)

lemma data_zero: "create_wave_data lsin f (Fin 0) = Returns []"
  by (simp add: create_wave_data_def of_u32_def dmul.simps rnd_def to_u32_def trunc_def
        wave_loop.simps)

lemma count_one_second: "to_u32 (dmul (of_u32 k_sample_rate) (Fin 1)) = Some 48000"
  by (simp add: of_u32_def k_sample_rate_def dmul.simps rnd_eval conv_eval)

lemma data_one_second_first:
  assumes "lsin (Fin 0) = Fin 0"
  shows "create_wave_data lsin 1000 (Fin 1) =
           wave_loop lsin \<lparr>m_amplitude = k_amplitude, m_frequency = 1000,
                             m_sample_rate = k_sample_rate\<rparr> 1 48000 [0x00, 0x00, 0x00]"
proof -
  have "get_sample lsin \<lparr>m_amplitude = k_amplitude, m_frequency = 1000,
                           m_sample_rate = k_sample_rate\<rparr> 0 = Returns 0"
    unfolding k_sample_rate_def using assms by (rule get_sample_first)
  then show ?thesis
    by (simp add: create_wave_data_def count_one_second Let_def sample_bytes_def
          wave_loop.simps [of _ _ 0 48000 "[]"])
qed

lemma first_payload_bytes:
  assumes "lsin (Fin 0) = Fin 0" and "create_wave_data lsin 1000 (Fin 1) = Returns bytes"
  shows "take 3 bytes = [0x00, 0x00, 0x00]"
proof -
  from assms have "wave_loop lsin \<lparr>m_amplitude = k_amplitude, m_frequency = 1000,
      m_sample_rate = k_sample_rate\<rparr> 1 48000 [0x00, 0x00, 0x00] = Returns bytes"
    by (simp add: data_one_second_first)
  then have "take (length [0x00, 0x00, 0x00 :: u8]) bytes = [0x00, 0x00, 0x00]"
    by (rule wave_loop_extends)
  then show ?thesis by (simp add: numeral_3_eq_3)
qed

lemma product_two_samples: "dmul (Fin 48000) (Fin (1 / 16384)) = Fin (375 / 128)"
  by (simp add: dmul.simps rnd_eval)

text \<open>
  Hence the loop returns for every sample count, with three bytes for each sample, and
  \<open>create_wave_data\<close> returns whenever the sample count converts.
\<close>

lemma wave_loop_defined:
  assumes bounded: "\<And>q. \<exists>r. lsin (Fin q) = Fin r \<and> \<bar>r\<bar> \<le> 1"
    and amplitude: "unat a < 2 ^ 31"
  shows "\<exists>bytes. wave_loop lsin \<lparr>m_amplitude = a, m_frequency = f,
                                       m_sample_rate = k_sample_rate\<rparr> 0 n [] = Returns bytes
                 \<and> length bytes = 3 * unat n"
proof -
  define g where "g = \<lparr>m_amplitude = a, m_frequency = f, m_sample_rate = k_sample_rate\<rparr>"
  have "\<forall>k. \<exists>s. get_sample lsin g (word_of_nat k) = Returns s"
    unfolding g_def
    using get_sample_defined [where lsin = lsin and a = a, OF bounded amplitude] by blast
  then obtain s where s: "\<forall>k. get_sample lsin g (word_of_nat k) = Returns (s k)"
    by metis
  have "wave_loop lsin g (word_of_nat 0) n [] =
          Returns ([] @ concat (map (\<lambda>k. sample_bytes (s k)) [0..<unat n]))"
    by (rule wave_loop_returns) (simp_all add: s)
  then show ?thesis
    by (simp add: g_def length_concat_sample_bytes)
qed

lemma amplitude_fits: "unat k_amplitude < 2 ^ 31"
  by (simp add: k_amplitude_def)

lemma create_wave_data_returns:
  assumes bounded: "\<And>q. \<exists>r. lsin (Fin q) = Fin r \<and> \<bar>r\<bar> \<le> 1"
    and count: "to_u32 (dmul (of_u32 k_sample_rate) d) = Some n"
  shows "\<exists>bytes. create_wave_data lsin f d = Returns bytes \<and> length bytes = 3 * unat n"
  using wave_loop_defined [where lsin = lsin and a = k_amplitude and f = f and n = n,
      OF bounded amplitude_fits]
  by (simp add: create_wave_data_def count Let_def)

text \<open>
  C4, as amended. The number of samples is the product \<open>k_sample_rate * file_length_sec\<close>
  (a double \<open>p\<close>) with its fraction discarded, not rounded to nearest. When the samples
  at the indices \<open>0, \<dots>, trunc p - 1\<close> are \<open>s 0, \<dots>, s (trunc p - 1)\<close>,
  \<open>create_wave_data\<close> returns their encodings in index order, \<open>3 * trunc p\<close> bytes.
\<close>

theorem payload_sample_count:
  assumes "dmul (Fin 48000) d = Fin p" and "0 \<le> trunc p" and "trunc p < 2 ^ 32"
    and "\<forall>k < nat (trunc p).
           get_sample lsin \<lparr>m_amplitude = k_amplitude, m_frequency = f,
                               m_sample_rate = k_sample_rate\<rparr> (word_of_nat k) = Returns (s k)"
  shows "create_wave_data lsin f d =
           Returns (concat (map (\<lambda>k. sample_bytes (s k)) [0..<nat (trunc p)]))
         \<and> length (concat (map (\<lambda>k. sample_bytes (s k)) [0..<nat (trunc p)]))
             = 3 * nat (trunc p)"
proof -
  define n :: u32 where "n = word_of_int (trunc p)"
  define g where "g = \<lparr>m_amplitude = k_amplitude, m_frequency = f,
                          m_sample_rate = k_sample_rate\<rparr>"
  from assms(1-3) have count: "to_u32 (dmul (of_u32 k_sample_rate) d) = Some n"
    by (simp add: sample_rate_double to_u32_def n_def)
  from assms(2,3) have "uint n = trunc p"
    unfolding n_def by (simp add: uint_word_of_int)
  then have un: "unat n = nat (trunc p)"
    by (simp add: unat_eq_nat_uint)
  have "wave_loop lsin g (word_of_nat 0) n [] =
          Returns ([] @ concat (map (\<lambda>k. sample_bytes (s k)) [0..<unat n]))"
  proof (rule wave_loop_returns)
    show "0 \<le> unat n" by simp
    show "\<forall>k. 0 \<le> k \<and> k < unat n \<longrightarrow> get_sample lsin g (word_of_nat k) = Returns (s k)"
      using assms(4) by (simp add: un g_def)
  qed
  then have "create_wave_data lsin f d =
      Returns (concat (map (\<lambda>k. sample_bytes (s k)) [0..<nat (trunc p)]))"
    by (simp add: create_wave_data_def count Let_def g_def un)
  then show ?thesis
    by (simp add: length_concat_sample_bytes)
qed

theorem payload_sample_count_witness:
  "dmul (Fin 48000) (Fin (1 / 16384)) = Fin (375 / 128)
   \<and> trunc (375 / 128) = 2
   \<and> get_sample sin_taylor \<lparr>m_amplitude = k_amplitude, m_frequency = 1000,
                               m_sample_rate = k_sample_rate\<rparr> 0 = Returns 0
   \<and> get_sample sin_taylor \<lparr>m_amplitude = k_amplitude, m_frequency = 1000,
                               m_sample_rate = k_sample_rate\<rparr> 1 = Returns 3915785
   \<and> create_wave_data sin_taylor 1000 (Fin (1 / 16384))
       = Returns [0x00, 0x00, 0x00, 0x09, 0xC0, 0x3B]"
proof -
  have t: "trunc (375 / 128) = 2"
    by (simp add: conv_eval)
  have s0: "get_sample sin_taylor \<lparr>m_amplitude = k_amplitude, m_frequency = 1000,
                               m_sample_rate = k_sample_rate\<rparr> 0 = Returns 0"
    unfolding k_sample_rate_def using sin_taylor_zero by (rule get_sample_first)
  have s1: "get_sample sin_taylor \<lparr>m_amplitude = k_amplitude, m_frequency = 1000,
                               m_sample_rate = k_sample_rate\<rparr> 1 = Returns 3915785"
    unfolding k_sample_rate_def by (rule get_sample_second)
  have all: "\<forall>k < nat (trunc (375 / 128)).
      get_sample sin_taylor \<lparr>m_amplitude = k_amplitude, m_frequency = 1000,
         m_sample_rate = k_sample_rate\<rparr> (word_of_nat k)
      = Returns (if k = 0 then 0 else 3915785)"
    using s0 s1 by (simp add: t less_Suc_eq numeral_2_eq_2)
  have "create_wave_data sin_taylor 1000 (Fin (1 / 16384)) =
          Returns (concat (map (\<lambda>k. sample_bytes (if k = 0 then 0 else 3915785))
                     [0..<nat (trunc (375 / 128))]))"
    using payload_sample_count [OF product_two_samples _ _ all] by (simp add: t)
  moreover have "concat (map (\<lambda>k. sample_bytes (if k = 0 then 0 else 3915785))
                     [0..<nat (trunc (375 / 128))])
      = [0x00, 0x00, 0x00, 0x09, 0xC0, 0x3B]"
    by (simp add: t numeral_2_eq_2 sample_bytes_zero sample_bytes_second)
  ultimately have "create_wave_data sin_taylor 1000 (Fin (1 / 16384))
       = Returns [0x00, 0x00, 0x00, 0x09, 0xC0, 0x3B]"
    by (simp only:)
  with product_two_samples t s0 s1 show ?thesis
    by (simp only: simp_thms)
qed

text \<open>
  With \<open>2^-16\<close> seconds the product is \<open>0.732421875\<close>: the nearest integer is 1, the
  program builds no sample.
\<close>

theorem payload_sample_count_counterexample:
  "dmul (Fin 48000) (Fin (1 / 65536)) = Fin (375 / 512)
   \<and> round (375 / 512 :: rat) = 1
   \<and> create_wave_data sin_taylor 1000 (Fin (1 / 65536)) = Returns []"
  by (simp add: data_short round_def floor_rat_numeral dmul.simps rnd_eval)

section \<open>The bytes of each sample in the payload\<close>

lemma nth_concat_sample_bytes:
  assumes "k < n" and "j < 3"
  shows "concat (map (\<lambda>k. sample_bytes (s k)) [0..<n]) ! (3 * k + j) = sample_bytes (s k) ! j"
  using assms(1)
proof (induction n)
  case 0
  then show ?case by simp
next
  case (Suc n)
  have len: "length (concat (map (\<lambda>k. sample_bytes (s k)) [0..<n])) = 3 * n"
    by (simp add: length_concat_sample_bytes)
  show ?case
  proof (cases "k < n")
    case True
    then have "3 * k + j < 3 * n" using assms(2) by simp
    with Suc.IH [OF True] show ?thesis by (simp add: nth_append len)
  next
    case False
    with Suc.prems have "k = n" by simp
    then show ?thesis by (simp add: nth_append len)
  qed
qed

text \<open>The third and fourth sample of the 1000 Hz wave, with \<open>sin_taylor\<close>.\<close>

lemma sample_time_two:
  "dmul (of_u32 2) (ddiv (Fin 1) (of_u32 48000)) = Fin (6148914691236517 / 147573952589676412928)"
  by (simp only: time_increment_48k) (simp add: of_u32_def dmul.simps rnd_eval)

lemma angle_two:
  "dmul (dmul (dmul (Fin 2) k_PI) (of_u32 1000)) (Fin (6148914691236517 / 147573952589676412928))
     = Fin (4716158501352293 / 18014398509481984)"
  by (simp only: angular_frequency_1k) (simp add: dmul.simps rnd_eval)

lemma sin_taylor_two:
  "sin_taylor (Fin (4716158501352293 / 18014398509481984))
     = Fin (2331234710016891 / 9007199254740992)"
  by (simp add: sin_taylor_def power_divide rnd_eval)

lemma scaled_two:
  "dmul (of_u32 k_amplitude) (Fin (2331234710016891 / 9007199254740992))
     = Fin (4168572503358527 / 536870912)"
  by (simp add: of_u32_def k_amplitude_def dmul.simps rnd_eval)

lemma get_sample_third:
  "get_sample sin_taylor \<lparr>m_amplitude = k_amplitude, m_frequency = 1000,
                            m_sample_rate = 48000\<rparr> 2 = Returns 7764571"
  by (simp only: get_sample_def Let_def sine_wave_generator.simps sample_time_two angle_two
        sin_taylor_two scaled_two)
     (simp add: conv_eval)

lemma sample_time_three:
  "dmul (of_u32 3) (ddiv (Fin 1) (of_u32 48000)) = Fin (1152921504606847 / 18446744073709551616)"
  by (simp only: time_increment_48k) (simp add: of_u32_def dmul.simps rnd_eval)

lemma angle_three:
  "dmul (dmul (dmul (Fin 2) k_PI) (of_u32 1000)) (Fin (1152921504606847 / 18446744073709551616))
     = Fin (884279719003555 / 2251799813685248)"
  by (simp only: angular_frequency_1k) (simp add: dmul.simps rnd_eval)

lemma sin_taylor_three:
  "sin_taylor (Fin (884279719003555 / 2251799813685248))
     = Fin (3446905921295565 / 9007199254740992)"
  by (simp add: sin_taylor_def power_divide rnd_eval)

lemma scaled_three:
  "dmul (of_u32 k_amplitude) (Fin (3446905921295565 / 9007199254740992))
     = Fin (6163548090390381 / 536870912)"
  by (simp add: of_u32_def k_amplitude_def dmul.simps rnd_eval)

lemma get_sample_fourth:
  "get_sample sin_taylor \<lparr>m_amplitude = k_amplitude, m_frequency = 1000,
                            m_sample_rate = 48000\<rparr> 3 = Returns 11480502"
  by (simp only: get_sample_def Let_def sine_wave_generator.simps sample_time_three angle_three
        sin_taylor_three scaled_three)
     (simp add: conv_eval)

lemma samples_four: "dmul (of_u32 k_sample_rate) (Fin (3 / 32768)) = Fin (1125 / 256)"
  by (simp add: of_u32_def k_sample_rate_def dmul.simps rnd_eval)

lemma count_four: "to_u32 (dmul (of_u32 k_sample_rate) (Fin (3 / 32768))) = Some 4"
  by (simp only: samples_four) (simp add: conv_eval)

text \<open>
  C5. Let the run have \<open>n\<close> samples, \<open>s 0, \<dots>, s (n - 1)\<close> at the indices
  \<open>0, \<dots>, n - 1\<close>. Then \<open>create_wave_data\<close> returns \<open>3 * n\<close> bytes, and for each
  \<open>k\<close> the bytes at \<open>3 * k\<close>, \<open>3 * k + 1\<close> and \<open>3 * k + 2\<close> are \<open>s k & 0xFF\<close>,
  \<open>(s k >> 8) & 0xFF\<close> and \<open>(s k >> 16) & 0xFF\<close>. Read as a little-endian number they
  are \<open>s k\<close> modulo \<open>2^24\<close>, whatever the size of \<open>s k\<close>: nothing is clamped.
\<close>

theorem encoder_appends_low_bytes:
  assumes count: "to_u32 (dmul (of_u32 k_sample_rate) d) = Some n"
    and samples: "\<forall>k < unat n.
           get_sample lsin \<lparr>m_amplitude = k_amplitude, m_frequency = f,
                               m_sample_rate = k_sample_rate\<rparr> (word_of_nat k) = Returns (s k)"
  shows "\<exists>bytes. create_wave_data lsin f d = Returns bytes
           \<and> length bytes = 3 * unat n
           \<and> (\<forall>k < unat n.
                 bytes ! (3 * k) = ucast (s k AND 0xFF)
               \<and> bytes ! (3 * k + 1) = ucast (signed_drop_bit 8 (s k) AND 0xFF)
               \<and> bytes ! (3 * k + 2) = ucast (signed_drop_bit 16 (s k) AND 0xFF)
               \<and> uint (bytes ! (3 * k)) + 256 * uint (bytes ! (3 * k + 1))
                   + 65536 * uint (bytes ! (3 * k + 2)) = sint (s k) mod 2 ^ 24)"
proof -
  define g where "g = \<lparr>m_amplitude = k_amplitude, m_frequency = f,
                          m_sample_rate = k_sample_rate\<rparr>"
  define bytes where "bytes = concat (map (\<lambda>k. sample_bytes (s k)) [0..<unat n])"
  have "wave_loop lsin g (word_of_nat 0) n [] = Returns ([] @ bytes)"
    unfolding bytes_def
  proof (rule wave_loop_returns)
    show "0 \<le> unat n" by simp
    show "\<forall>k. 0 \<le> k \<and> k < unat n \<longrightarrow> get_sample lsin g (word_of_nat k) = Returns (s k)"
      using samples by (simp add: g_def)
  qed
  then have ret: "create_wave_data lsin f d = Returns bytes"
    by (simp add: create_wave_data_def count Let_def g_def)
  have len: "length bytes = 3 * unat n"
    by (simp add: bytes_def length_concat_sample_bytes)
  have each: "bytes ! (3 * k) = ucast (s k AND 0xFF)
               \<and> bytes ! (3 * k + 1) = ucast (signed_drop_bit 8 (s k) AND 0xFF)
               \<and> bytes ! (3 * k + 2) = ucast (signed_drop_bit 16 (s k) AND 0xFF)
               \<and> uint (bytes ! (3 * k)) + 256 * uint (bytes ! (3 * k + 1))
                   + 65536 * uint (bytes ! (3 * k + 2)) = sint (s k) mod 2 ^ 24"
    if k: "k < unat n" for k
  proof -
    have "bytes ! (3 * k + 0) = sample_bytes (s k) ! 0"
      unfolding bytes_def using k by (rule nth_concat_sample_bytes) simp
    then have b0: "bytes ! (3 * k) = ucast (s k AND 0xFF)"
      by (simp add: sample_bytes_def)
    have "bytes ! (3 * k + 1) = sample_bytes (s k) ! 1"
      unfolding bytes_def using k by (rule nth_concat_sample_bytes) simp
    then have b1: "bytes ! (3 * k + 1) = ucast (signed_drop_bit 8 (s k) AND 0xFF)"
      by (simp add: sample_bytes_def)
    have "bytes ! (3 * k + 2) = sample_bytes (s k) ! 2"
      unfolding bytes_def using k by (rule nth_concat_sample_bytes) simp
    then have b2: "bytes ! (3 * k + 2) = ucast (signed_drop_bit 16 (s k) AND 0xFF)"
      by (simp add: sample_bytes_def numeral_2_eq_2)
    have "map uint [bytes ! (3 * k), bytes ! (3 * k + 1), bytes ! (3 * k + 2)]
            = [sint (s k) mod 256, sint (s k) div 256 mod 256, sint (s k) div 65536 mod 256]"
      using sample_bytes_uint [of "s k"] by (simp only: b0 b1 b2 sample_bytes_def)
    then have "uint (bytes ! (3 * k)) + 256 * uint (bytes ! (3 * k + 1))
                 + 65536 * uint (bytes ! (3 * k + 2))
               = sint (s k) mod 256 + 256 * (sint (s k) div 256 mod 256)
                 + 65536 * (sint (s k) div 65536 mod 256)"
      by simp
    also have "\<dots> = sint (s k) mod 16777216" by (rule little_endian24)
    finally have "uint (bytes ! (3 * k)) + 256 * uint (bytes ! (3 * k + 1))
                 + 65536 * uint (bytes ! (3 * k + 2)) = sint (s k) mod 2 ^ 24"
      by simp
    with b0 b1 b2 show ?thesis by (simp only: simp_thms)
  qed
  from ret len each show ?thesis by blast
qed

text \<open>
  A run of four samples. The fourth is 11480502, above \<open>2^23 - 1 = 8388607\<close>: the payload
  ends with its low 24 bits \<open>B6 2D AF\<close>, where a saturating encoder would have put
  \<open>FF FF 7F\<close>.
\<close>

theorem encoder_appends_low_bytes_witness:
  "to_u32 (dmul (of_u32 k_sample_rate) (Fin (3 / 32768))) = Some 4
   \<and> get_sample sin_taylor \<lparr>m_amplitude = k_amplitude, m_frequency = 1000,
                               m_sample_rate = k_sample_rate\<rparr> 3 = Returns 11480502
   \<and> 2 ^ 23 - 1 < sint (11480502 :: i32)
   \<and> create_wave_data sin_taylor 1000 (Fin (3 / 32768))
       = Returns [0x00, 0x00, 0x00, 0x09, 0xC0, 0x3B, 0x5B, 0x7A, 0x76, 0xB6, 0x2D, 0xAF]
   \<and> sample_bytes (word_of_int (clamp24 (sint (11480502 :: i32)))) = [0xFF, 0xFF, 0x7F]"
proof -
  define s :: "nat \<Rightarrow> i32" where
    "s = (\<lambda>k. if k = 0 then 0 else if k = 1 then 3915785 else if k = 2 then 7764571
               else 11480502)"
  have s0: "get_sample sin_taylor \<lparr>m_amplitude = k_amplitude, m_frequency = 1000,
                               m_sample_rate = k_sample_rate\<rparr> 0 = Returns 0"
    unfolding k_sample_rate_def using sin_taylor_zero by (rule get_sample_first)
  have s1: "get_sample sin_taylor \<lparr>m_amplitude = k_amplitude, m_frequency = 1000,
                               m_sample_rate = k_sample_rate\<rparr> 1 = Returns 3915785"
    unfolding k_sample_rate_def by (rule get_sample_second)
  have s2: "get_sample sin_taylor \<lparr>m_amplitude = k_amplitude, m_frequency = 1000,
                               m_sample_rate = k_sample_rate\<rparr> 2 = Returns 7764571"
    unfolding k_sample_rate_def by (rule get_sample_third)
  have s3: "get_sample sin_taylor \<lparr>m_amplitude = k_amplitude, m_frequency = 1000,
                               m_sample_rate = k_sample_rate\<rparr> 3 = Returns 11480502"
    unfolding k_sample_rate_def by (rule get_sample_fourth)
  have four: "k < 4 \<longleftrightarrow> k = 0 \<or> k = 1 \<or> k = 2 \<or> k = 3" for k :: nat
    by arith
  have all: "\<forall>k < unat (4 :: u32).
      get_sample sin_taylor \<lparr>m_amplitude = k_amplitude, m_frequency = 1000,
         m_sample_rate = k_sample_rate\<rparr> (word_of_nat k) = Returns (s k)"
    using s0 s1 s2 s3 by (auto simp: four s_def)
  from encoder_appends_low_bytes [OF count_four all]
  obtain bytes where ret: "create_wave_data sin_taylor 1000 (Fin (3 / 32768)) = Returns bytes"
    and len: "length bytes = 12"
    and each: "\<forall>k < 4.
                 bytes ! (3 * k) = ucast (s k AND 0xFF)
               \<and> bytes ! (3 * k + 1) = ucast (signed_drop_bit 8 (s k) AND 0xFF)
               \<and> bytes ! (3 * k + 2) = ucast (signed_drop_bit 16 (s k) AND 0xFF)"
    by auto
  from len obtain b0 b1 b2 b3 b4 b5 b6 b7 b8 b9 b10 b11
    where bs: "bytes = [b0, b1, b2, b3, b4, b5, b6, b7, b8, b9, b10, b11]"
    by (auto simp: numeral_eq_Suc length_Suc_conv)
  from each [rule_format, of 0] have "b0 = 0x00 \<and> b1 = 0x00 \<and> b2 = 0x00"
    by (simp add: bs s_def)
  moreover from each [rule_format, of 1] have "b3 = 0x09 \<and> b4 = 0xC0 \<and> b5 = 0x3B"
    by (simp add: bs s_def)
  moreover from each [rule_format, of 2] have "b6 = 0x5B \<and> b7 = 0x7A \<and> b8 = 0x76"
    by (simp add: bs s_def)
  moreover from each [rule_format, of 3] have "b9 = 0xB6 \<and> b10 = 0x2D \<and> b11 = 0xAF"
    by (simp add: bs s_def)
  ultimately
  have "bytes = [0x00, 0x00, 0x00, 0x09, 0xC0, 0x3B, 0x5B, 0x7A, 0x76, 0xB6, 0x2D, 0xAF]"
    by (simp add: bs)
  with ret have "create_wave_data sin_taylor 1000 (Fin (3 / 32768))
       = Returns [0x00, 0x00, 0x00, 0x09, 0xC0, 0x3B, 0x5B, 0x7A, 0x76, 0xB6, 0x2D, 0xAF]"
    by (simp only:)
  moreover have "2 ^ 23 - 1 < sint (11480502 :: i32)" by simp
  moreover have "sample_bytes (word_of_int (clamp24 (sint (11480502 :: i32)))) = [0xFF, 0xFF, 0x7F]"
    by (simp add: clamp24_def sample_bytes_def)
  ultimately show ?thesis
    using count_four s3 by (simp only: simp_thms)
qed

section \<open>The payload fits\<close>

lemma length_sample_bytes: "length (sample_bytes v) = 3"
  by (simp add: sample_bytes_def)

lemma wave_loop_length:
  "wave_loop lsin g i n acc = Returns bytes \<Longrightarrow>
     length bytes = length acc + 3 * (unat n - unat i)"
proof (induction lsin g i n acc rule: wave_loop.induct)
  case (1 lsin g i n acc)
  show ?case
  proof (cases "i < n")
    case False
    then have "unat n - unat i = 0" by (simp add: word_less_nat_alt)
    with False "1.prems" show ?thesis by (simp add: wave_loop.simps [of lsin g i n acc])
  next
    case True
    then have below: "unat i < unat n" by (simp add: word_less_nat_alt)
    moreover have "unat n < 2 ^ 32" using unsigned_less [of n] by simp
    ultimately have "unat i + 1 < 2 ^ 32" by linarith
    then have next_index: "unat (i + 1) = Suc (unat i)" by (simp add: unat_word_ariths)
    show ?thesis
    proof (cases "get_sample lsin g i")
      case (Returns s)
      with True "1.prems" have "wave_loop lsin g (i + 1) n (acc @ sample_bytes s) = Returns bytes"
        by (simp add: wave_loop.simps [of lsin g i n acc])
      with "1.IH" [OF True Returns]
      have "length bytes = length (acc @ sample_bytes s) + 3 * (unat n - unat (i + 1))"
        by simp
      with below show ?thesis by (simp add: next_index length_sample_bytes)
    next
      case (Throws e)
      with True "1.prems" show ?thesis by (simp add: wave_loop.simps [of lsin g i n acc])
    next
      case Undefined
      with True "1.prems" show ?thesis by (simp add: wave_loop.simps [of lsin g i n acc])
    qed
  qed
qed

lemma create_wave_data_length:
  assumes "create_wave_data lsin f d = Returns samples"
  shows "\<exists>m. to_u32 (dmul (of_u32 k_sample_rate) d) = Some m \<and> length samples = 3 * unat m"
proof (cases "to_u32 (dmul (of_u32 k_sample_rate) d)")
  case None
  with assms show ?thesis by (simp add: create_wave_data_def)
next
  case (Some m)
  with assms have "wave_loop lsin \<lparr>m_amplitude = k_amplitude, m_frequency = f,
      m_sample_rate = k_sample_rate\<rparr> 0 m [] = Returns samples"
    by (simp add: create_wave_data_def)
  then have "length samples = length ([] :: u8 list) + 3 * (unat m - unat (0 :: u32))"
    by (rule wave_loop_length)
  with Some show ?thesis by simp
qed

text \<open>
  A duration that passes the overflow check of the header has fewer than \<open>2^32 / 3\<close>
  samples: the size of the payload fits the \<open>uint32_t\<close> parameter of \<open>write_to_file\<close>.
\<close>

lemma payload_fits:
  assumes size: "to_u64 (dmul d (Fin 144000)) = Some n" and guard: "\<not> 0xFFFFFFFF < n"
    and count: "to_u32 (dmul (of_u32 k_sample_rate) d) = Some m"
  shows "3 * unat m < 2 ^ 32"
proof -
  from size obtain q where d: "d = Fin q"
    by (cases d) (simp_all add: dmul.simps to_u64_def)
  from size d obtain p where p: "rnd (q * 144000) = Fin p"
    and tp: "0 \<le> trunc p" "trunc p < 2 ^ 64" and n: "n = word_of_int (trunc p)"
    by (auto simp: dmul.simps to_u64_def split: double.splits if_splits)
  from tp have "uint n = trunc p"
    unfolding n by (simp add: uint_word_of_int)
  moreover from guard have "uint n \<le> 4294967295"
    by (simp add: not_less word_le_def)
  ultimately have "trunc p \<le> 4294967295" by simp
  have small: "q * 144000 < 4294967296"
  proof (rule ccontr)
    assume "\<not> q * 144000 < 4294967296"
    then have "4294967296 \<le> q * 144000" by simp
    from rnd_lower [OF this p] have "4294967296 \<le> p" .
    then have "4294967296 \<le> \<lfloor>p\<rfloor>" by (simp add: le_floor_iff)
    moreover from \<open>4294967296 \<le> p\<close> have "trunc p = \<lfloor>p\<rfloor>" by (simp add: trunc_def)
    ultimately show False using \<open>trunc p \<le> 4294967295\<close> by simp
  qed
  from count d obtain p' where p': "rnd (48000 * q) = Fin p'"
    and tp': "0 \<le> trunc p'" "trunc p' < 2 ^ 32" and m: "m = word_of_int (trunc p')"
    by (auto simp: sample_rate_double dmul.simps to_u32_def split: double.splits if_splits)
  from tp' have "uint m = trunc p'"
    unfolding m by (simp add: uint_word_of_int)
  then have um: "int (unat m) = trunc p'" by simp
  have "trunc p' \<le> 1431655765"
  proof (cases "0 \<le> q")
    case False
    then have "48000 * q \<le> 0" by simp
    with rnd_sign [OF p'] have "p' \<le> 0" by simp
    then have "trunc p' \<le> 0" by (simp add: trunc_def ceiling_le_iff)
    then show ?thesis by simp
  next
    case True
    with small have "\<bar>48000 * q\<bar> \<le> of_int 2863311531 / 2" by (simp add: abs_mult)
    from rnd_bounded_half [OF this] p' have "\<bar>p'\<bar> \<le> 2863311531 / 2" by simp
    then have "p' < 1431655766" by simp
    then have "\<lfloor>p'\<rfloor> < 1431655766" by (simp add: floor_less_iff)
    moreover from True rnd_sign [OF p'] have "0 \<le> p'" by simp
    then have "trunc p' = \<lfloor>p'\<rfloor>" by (simp add: trunc_def)
    ultimately show ?thesis by simp
  qed
  with um have "int (unat m) \<le> int 1431655765" by simp
  then have "unat m \<le> 1431655765" by (simp only: of_nat_le_iff)
  then show ?thesis by simp
qed

section \<open>The output stream\<close>

lemma stream_write_roomy:
  assumes "length (stored file) + length (pending file) + length bytes \<le> capacity fs"
    and "\<not> bad file"
  shows "\<not> bad (stream_write fs file bytes)"
    and "stored (stream_write fs file bytes) @ pending (stream_write fs file bytes)
           = stored file @ pending file @ bytes"
  using assms by (simp_all add: stream_write_def Let_def)

text \<open>When the device takes every byte, the call returns and the file holds them all.\<close>

lemma write_to_file_roomy:
  assumes "can_open fs path"
    and "length (take (unat hs) h) + length (take (unat ds) d) \<le> capacity fs"
  shows "write_to_file h hs d ds path fs =
           (Returns (), fs\<lparr>files := (files fs)(path \<mapsto> take (unat hs) h @ take (unat ds) d)\<rparr>)"
proof -
  define f0 where "f0 = \<lparr>pending = [], stored = [], bad = False\<rparr>"
  define f1 where "f1 = stream_write fs f0 (take (unat hs) h)"
  define f2 where "f2 = stream_write fs f1 (take (unat ds) d)"
  have b1: "\<not> bad f1" and c1: "stored f1 @ pending f1 = take (unat hs) h"
    unfolding f1_def using stream_write_roomy [of f0 "take (unat hs) h" fs] assms(2)
    by (simp_all add: f0_def)
  have room: "length (stored f1) + length (pending f1) + length (take (unat ds) d) \<le> capacity fs"
  proof -
    have "length (stored f1) + length (pending f1) = length (stored f1 @ pending f1)" by simp
    with c1 assms(2) show ?thesis by simp
  qed
  have b2: "\<not> bad f2" and c2: "stored f2 @ pending f2 = take (unat hs) h @ take (unat ds) d"
    unfolding f2_def using stream_write_roomy [OF room b1] c1 by simp_all
  have "length (stored f2 @ pending f2) \<le> capacity fs"
    unfolding c2 using assms(2) by simp
  then have "take (capacity fs) (stored f2 @ pending f2) = stored f2 @ pending f2"
    by (rule take_all)
  then have "stream_close fs f2 = take (unat hs) h @ take (unat ds) d"
    by (simp only: stream_close_def c2)
  with assms(1) b1 b2 show ?thesis
    by (simp add: write_to_file_def Let_def f0_def f1_def f2_def)
qed

text \<open>
  When header and data both fit the buffer, no write reaches the device before
  \<open>close\<close>, and the call returns normally even if the device takes nothing.
\<close>

lemma write_to_file_unnoticed:
  assumes "can_open fs path"
    and "length (take (unat hs) h) + length (take (unat ds) d) \<le> buffer fs"
  shows "write_to_file h hs d ds path fs =
           (Returns (),
            fs\<lparr>files := (files fs)(path \<mapsto>
                  take (capacity fs) (take (unat hs) h @ take (unat ds) d))\<rparr>)"
  using assms by (simp add: write_to_file_def stream_write_def stream_close_def Let_def)

text \<open>
  When the header fits the buffer and the data does not, a device that is too small
  makes the second \<open>write\<close> fail: the exception names the audio data.
\<close>

lemma write_to_file_blames_data:
  assumes "can_open fs path"
    and "length (take (unat hs) h) \<le> buffer fs"
    and "buffer fs < length (take (unat hs) h) + length (take (unat ds) d)"
    and "capacity fs < length (take (unat hs) h) + length (take (unat ds) d)"
  shows "fst (write_to_file h hs d ds path fs) = Throws data_write_failure"
  using assms by (simp add: write_to_file_def stream_write_def Let_def)

section \<open>Validation and the overflow check\<close>

lemma write_to_file_no_argument_error:
  "fst (write_to_file h hs p ps path fs) \<noteq> Throws invalid_argument
   \<and> fst (write_to_file h hs p ps path fs) \<noteq> Throws overflow_error"
  by (simp add: write_to_file_def Let_def)

lemma half_sample_rate: "k_sample_rate div 2 = 24000"
  by (simp add: k_sample_rate_def)

lemma create_wave_file_long:
  "create_wave_file lsin 1000 (Fin 30000) fs = (Throws overflow_error, fs)"
  by (simp add: create_wave_file_def half_sample_rate create_wave_header_cases size_long)


text \<open>
  The comparison with \<open>UINT32_MAX\<close> follows the conversion to \<open>uint64_t\<close>. For
  \<open>2^64 = 18446744073709551616\<close> seconds the product is beyond \<open>uint64_t\<close>, the
  conversion has no defined result, and the guard that should reject the duration tests
  no meaningful value: no overflow error is guaranteed.
\<close>

lemma create_wave_file_huge:
  "create_wave_file lsin 1000 (Fin 18446744073709551616) fs = (Undefined, fs)"
  by (simp add: create_wave_file_def half_sample_rate create_wave_header_cases size_huge)

lemma create_wave_file_short:
  "create_wave_file lsin 1000 (Fin (1 / 65536)) blank_disk =
     (Returns (),
      blank_disk\<lparr>files := (files blank_disk)(''audio.wav'' \<mapsto>
        [0x52, 0x49, 0x46, 0x46, 0x26, 0, 0, 0, 0x57, 0x41, 0x56, 0x45,
         0x66, 0x6D, 0x74, 0x20, 0x10, 0, 0, 0, 1, 0, 1, 0,
         0x80, 0xBB, 0, 0, 0x80, 0x32, 0x02, 0, 3, 0, 0x18, 0,
         0x64, 0x61, 0x74, 0x61, 2, 0, 0, 0])\<rparr>)"
  by (simp add: create_wave_file_def half_sample_rate header_short data_short
        write_to_file_roomy blank_disk_def)




text \<open>
  C6. A frequency above 24000 makes \<open>create_wave_file\<close> throw the invalid-argument
  error for every duration, also one the encoder would reject or could not convert, and
  the file system stays as it was. A frequency of at most 24000 passes: the
  invalid-argument error then comes from the duration check alone.
\<close>

theorem nyquist_validation:
  "(24000 < f \<longrightarrow> create_wave_file lsin f d fs = (Throws invalid_argument, fs))
   \<and> (f \<le> 24000 \<longrightarrow>
        (fst (create_wave_file lsin f d fs) = Throws invalid_argument \<longleftrightarrow> dle d (Fin 0)))"
proof (intro conjI impI)
  assume "24000 < f"
  then show "create_wave_file lsin f d fs = (Throws invalid_argument, fs)"
    by (simp add: create_wave_file_def half_sample_rate)
next
  assume low: "f \<le> 24000"
  show "fst (create_wave_file lsin f d fs) = Throws invalid_argument \<longleftrightarrow> dle d (Fin 0)"
  proof (cases "dle d (Fin 0)")
    case True
    then show ?thesis by (simp add: create_wave_file_def)
  next
    case False
    from low have nofreq: "\<not> k_sample_rate div 2 < f"
      by (simp add: half_sample_rate not_less)
    have "fst (create_wave_file lsin f d fs) \<noteq> Throws invalid_argument"
    proof (cases "create_wave_header d")
      case (Returns header)
      show ?thesis
      proof (cases "create_wave_data lsin f d")
        case (Returns samples)
        with \<open>create_wave_header d = Returns header\<close> False nofreq
          write_to_file_no_argument_error show ?thesis
          by (simp add: create_wave_file_def)
      next
        case (Throws e)
        with create_wave_data_no_throw show ?thesis by blast
      next
        case Undefined
        with \<open>create_wave_header d = Returns header\<close> False nofreq show ?thesis
          by (simp add: create_wave_file_def)
      qed
    next
      case (Throws e)
      then have "e = overflow_error"
        by (auto simp: create_wave_header_cases split: option.splits if_splits)
      with Throws False nofreq show ?thesis
        by (simp add: create_wave_file_def)
    next
      case Undefined
      with False nofreq show ?thesis by (simp add: create_wave_file_def)
    qed
    with False show ?thesis by simp
  qed
qed

theorem nyquist_validation_witness:
  "(24000 :: u32) < 30000
   \<and> create_wave_file sin_taylor 30000 (Fin 30000) blank_disk = (Throws invalid_argument, blank_disk)
   \<and> (24000 :: u32) \<le> 24000
   \<and> \<not> dle (Fin (1 / 65536)) (Fin 0)
   \<and> fst (create_wave_file sin_taylor 24000 (Fin (1 / 65536)) blank_disk) \<noteq> Throws invalid_argument"
  using nyquist_validation [of 30000 sin_taylor "Fin 30000" blank_disk]
    nyquist_validation [of 24000 sin_taylor "Fin (1 / 65536)" blank_disk]
  by simp

text \<open>
  C7. A duration that compares \<open><= 0.0\<close> makes \<open>create_wave_file\<close> throw the
  invalid-argument error, with the file system as it was. The encoder has no such check:
  \<open>create_wave_header\<close> throws nothing but the overflow error, and never for a duration
  \<open><= 0.0\<close>; \<open>create_wave_data\<close> throws nothing; a zero duration gives a header with
  data size 0 and an empty payload.
\<close>

theorem duration_validation:
  "(dle d (Fin 0) \<longrightarrow> create_wave_file lsin f d fs = (Throws invalid_argument, fs))
   \<and> (create_wave_header d = Throws e \<longrightarrow> e = overflow_error \<and> \<not> dle d (Fin 0))
   \<and> create_wave_data lsin f d \<noteq> Throws e
   \<and> create_wave_header (Fin 0) =
       Returns [0x52, 0x49, 0x46, 0x46, 0x24, 0, 0, 0, 0x57, 0x41, 0x56, 0x45,
                0x66, 0x6D, 0x74, 0x20, 0x10, 0, 0, 0, 1, 0, 1, 0,
                0x80, 0xBB, 0, 0, 0x80, 0x32, 0x02, 0, 3, 0, 0x18, 0,
                0x64, 0x61, 0x74, 0x61, 0, 0, 0, 0]
   \<and> create_wave_data lsin f (Fin 0) = Returns []"
proof (intro conjI impI)
  assume "dle d (Fin 0)"
  then show "create_wave_file lsin f d fs = (Throws invalid_argument, fs)"
    by (simp add: create_wave_file_def)
next
  assume thrown: "create_wave_header d = Throws e"
  then obtain n where n: "to_u64 (dmul d (Fin 144000)) = Some n" and big: "0xFFFFFFFF < n"
    and e: "e = overflow_error"
    by (auto simp: create_wave_header_cases split: option.splits if_splits)
  from e show "e = overflow_error" .
  from big have "n \<noteq> 0" by auto
  with size_of_nonpositive_duration [OF _ n] show "\<not> dle d (Fin 0)"
    by blast
next
  show "create_wave_data lsin f d \<noteq> Throws e"
    by (rule create_wave_data_no_throw)
next
  show "create_wave_header (Fin 0) =
       Returns [0x52, 0x49, 0x46, 0x46, 0x24, 0, 0, 0, 0x57, 0x41, 0x56, 0x45,
                0x66, 0x6D, 0x74, 0x20, 0x10, 0, 0, 0, 1, 0, 1, 0,
                0x80, 0xBB, 0, 0, 0x80, 0x32, 0x02, 0, 3, 0, 0x18, 0,
                0x64, 0x61, 0x74, 0x61, 0, 0, 0, 0]"
    by (rule header_zero)
next
  show "create_wave_data lsin f (Fin 0) = Returns []"
    by (rule data_zero)
qed

theorem duration_validation_witness:
  "dle (Fin (- 1)) (Fin 0)
   \<and> create_wave_file sin_taylor 1000 (Fin (- 1)) blank_disk = (Throws invalid_argument, blank_disk)
   \<and> create_wave_header (Fin 30000) = Throws overflow_error
   \<and> \<not> dle (Fin 30000) (Fin 0)"
  using duration_validation [where d = "Fin (- 1)" and lsin = sin_taylor and f = 1000
      and fs = blank_disk]
    duration_validation [where d = "Fin 30000" and e = overflow_error]
  by (simp add: header_long)

section \<open>Declared size and payload length\<close>

text \<open>
  C1. For \<open>2^-16\<close> seconds the header declares a data size of 2 bytes (the product with
  the byte rate is \<open>2.197265625\<close>), while the payload is empty (the product with the
  sample rate is \<open>0.732421875\<close>): the file written has 44 bytes, its header announces 46.
\<close>

theorem declared_size_exceeds_payload:
  "create_wave_header (Fin (1 / 65536)) =
     Returns [0x52, 0x49, 0x46, 0x46, 0x26, 0, 0, 0, 0x57, 0x41, 0x56, 0x45,
              0x66, 0x6D, 0x74, 0x20, 0x10, 0, 0, 0, 1, 0, 1, 0,
              0x80, 0xBB, 0, 0, 0x80, 0x32, 0x02, 0, 3, 0, 0x18, 0,
              0x64, 0x61, 0x74, 0x61, 2, 0, 0, 0]
   \<and> create_wave_data sin_taylor 1000 (Fin (1 / 65536)) = Returns []
   \<and> create_wave_file sin_taylor 1000 (Fin (1 / 65536)) blank_disk =
       (Returns (),
        blank_disk\<lparr>files := (files blank_disk)(''audio.wav'' \<mapsto>
          [0x52, 0x49, 0x46, 0x46, 0x26, 0, 0, 0, 0x57, 0x41, 0x56, 0x45,
              0x66, 0x6D, 0x74, 0x20, 0x10, 0, 0, 0, 1, 0, 1, 0,
              0x80, 0xBB, 0, 0, 0x80, 0x32, 0x02, 0, 3, 0, 0x18, 0,
              0x64, 0x61, 0x74, 0x61, 2, 0, 0, 0])\<rparr>)"
  by (simp only: header_short data_short create_wave_file_short simp_thms)

section \<open>The scenario of one second at 1000 Hz\<close>

lemma sin_saturated_zero: "sin_saturated (Fin 0) = Fin 0"
  by (simp add: sin_saturated_def rnd_def)

lemma sin_saturated_bounded: "\<exists>r. sin_saturated (Fin q) = Fin r \<and> \<bar>r\<bar> \<le> 1"
proof -
  have "\<bar>max (- 1) (min 1 (q - q ^ 3 / 6 + q ^ 5 / 120 - q ^ 7 / 5040))\<bar> \<le> (of_int 1 :: rat)"
    by (simp add: abs_le_iff max_def min_def)
  from rnd_bounded [OF this] show ?thesis
    by (simp add: sin_saturated_def)
qed

text \<open>
  The first pass of the loop at 1000 Hz and 48000 samples per second appends
  \<open>00 00 00\<close>, for every amplitude, and later passes only append.
\<close>

lemma wave_loop_first:
  assumes "lsin (Fin 0) = Fin 0"
    and "wave_loop lsin \<lparr>m_amplitude = a, m_frequency = 1000, m_sample_rate = 48000\<rparr>
           0 n [] = Returns bytes"
    and "0 < n"
  shows "take 3 bytes = [0x00, 0x00, 0x00]"
proof -
  define g where "g = \<lparr>m_amplitude = a, m_frequency = 1000, m_sample_rate = 48000\<rparr>"
  have "get_sample lsin g 0 = Returns 0"
    unfolding g_def using assms(1) by (rule get_sample_first)
  with assms(2,3) have "wave_loop lsin g 1 n [0x00, 0x00, 0x00] = Returns bytes"
    by (simp add: g_def [symmetric] wave_loop.simps [of lsin g 0 n "[]"] sample_bytes_def)
  then have "take (length [0x00, 0x00, 0x00 :: u8]) bytes = [0x00, 0x00, 0x00]"
    by (rule wave_loop_extends)
  then show ?thesis by (simp add: numeral_3_eq_3)
qed

lemma starts_with_three:
  assumes "take 3 bytes = [a, b, c]" and "length bytes = 144000"
  shows "\<exists>rest. bytes = [a, b, c] @ rest \<and> length rest = 143997"
proof -
  have "bytes = take 3 bytes @ drop 3 bytes" by simp
  with assms(1) have "bytes = [a, b, c] @ drop 3 bytes" by simp
  moreover have "length (drop 3 bytes) = 143997" using assms(2) by simp
  ultimately show ?thesis by blast
qed

text \<open>
  C8. Let \<open>sin\<close> map zero to zero and stay within \<open>[-1, 1]\<close>. For one second the header
  declares \<open>data_size = 144000\<close> and \<open>file_size = 144036\<close>, and the sample count is
  48000. The generator with amplitude 300000, 1000 Hz and 48000 samples per second gives
  0 at index 0. The loop of \<open>create_wave_data\<close>, run with that generator, returns 144000
  bytes that start with \<open>00 00 00\<close>, and so does \<open>create_wave_data\<close> itself, whose
  amplitude is the constant \<open>k_amplitude\<close>.
\<close>

theorem one_second_scenario:
  assumes zero: "lsin (Fin 0) = Fin 0"
    and bounded: "\<forall>q. \<exists>r. lsin (Fin q) = Fin r \<and> \<bar>r\<bar> \<le> 1"
  shows "wave_header_struct (Fin 1) =
           Returns (format_fields\<lparr>data_size := 144000, file_size := 144036\<rparr>)
       \<and> create_wave_header (Fin 1) =
           Returns [0x52, 0x49, 0x46, 0x46, 0xA4, 0x32, 0x02, 0, 0x57, 0x41, 0x56, 0x45,
                    0x66, 0x6D, 0x74, 0x20, 0x10, 0, 0, 0, 1, 0, 1, 0,
                    0x80, 0xBB, 0, 0, 0x80, 0x32, 0x02, 0, 3, 0, 0x18, 0,
                    0x64, 0x61, 0x74, 0x61, 0x80, 0x32, 0x02, 0]
       \<and> to_u32 (dmul (of_u32 k_sample_rate) (Fin 1)) = Some 48000
       \<and> get_sample lsin \<lparr>m_amplitude = 300000, m_frequency = 1000,
                             m_sample_rate = 48000\<rparr> 0 = Returns 0
       \<and> (\<exists>rest. wave_loop lsin \<lparr>m_amplitude = 300000, m_frequency = 1000,
                                     m_sample_rate = 48000\<rparr> 0 48000 []
                      = Returns ([0x00, 0x00, 0x00] @ rest)
                   \<and> length rest = 143997)
       \<and> (\<exists>rest. create_wave_data lsin 1000 (Fin 1) = Returns ([0x00, 0x00, 0x00] @ rest)
                   \<and> length rest = 143997)"
proof -
  from bounded have b: "\<And>q. \<exists>r. lsin (Fin q) = Fin r \<and> \<bar>r\<bar> \<le> 1" by blast
  have first: "get_sample lsin \<lparr>m_amplitude = 300000, m_frequency = 1000,
                             m_sample_rate = 48000\<rparr> 0 = Returns 0"
    using zero by (rule get_sample_first)
  have amp: "unat (300000 :: u32) < 2 ^ 31" by simp
  from wave_loop_defined [where lsin = lsin and a = 300000 and f = 1000 and n = 48000,
      OF b amp]
  obtain bytes where loop: "wave_loop lsin \<lparr>m_amplitude = 300000, m_frequency = 1000,
                                     m_sample_rate = 48000\<rparr> 0 48000 [] = Returns bytes"
    and len: "length bytes = 144000"
    by (auto simp: k_sample_rate_def)
  have "take 3 bytes = [0x00, 0x00, 0x00]"
    using zero loop by (rule wave_loop_first) simp
  from starts_with_three [OF this len] loop
  have scenario: "\<exists>rest. wave_loop lsin \<lparr>m_amplitude = 300000, m_frequency = 1000,
                                     m_sample_rate = 48000\<rparr> 0 48000 []
                      = Returns ([0x00, 0x00, 0x00] @ rest)
                   \<and> length rest = 143997"
    by auto
  from create_wave_data_returns [where lsin = lsin and f = 1000, OF b count_one_second]
  obtain data where data: "create_wave_data lsin 1000 (Fin 1) = Returns data"
    and dlen: "length data = 144000"
    by auto
  have "take 3 data = [0x00, 0x00, 0x00]"
    using zero data by (rule first_payload_bytes)
  from starts_with_three [OF this dlen] data
  have program: "\<exists>rest. create_wave_data lsin 1000 (Fin 1) = Returns ([0x00, 0x00, 0x00] @ rest)
                   \<and> length rest = 143997"
    by auto
  from struct_one_second header_one_second count_one_second first scenario program
  show ?thesis by (simp only: simp_thms)
qed

theorem one_second_scenario_witness:
  "sin_saturated (Fin 0) = Fin 0
   \<and> (\<forall>q. \<exists>r. sin_saturated (Fin q) = Fin r \<and> \<bar>r\<bar> \<le> 1)
   \<and> get_sample sin_saturated \<lparr>m_amplitude = 300000, m_frequency = 1000,
                                  m_sample_rate = 48000\<rparr> 0 = Returns 0
   \<and> (\<exists>rest. wave_loop sin_saturated \<lparr>m_amplitude = 300000, m_frequency = 1000,
                                          m_sample_rate = 48000\<rparr> 0 48000 []
                  = Returns ([0x00, 0x00, 0x00] @ rest)
               \<and> length rest = 143997)
   \<and> (\<exists>rest. create_wave_data sin_saturated 1000 (Fin 1)
                  = Returns ([0x00, 0x00, 0x00] @ rest)
               \<and> length rest = 143997)"
proof -
  have b: "\<forall>q. \<exists>r. sin_saturated (Fin q) = Fin r \<and> \<bar>r\<bar> \<le> 1"
    using sin_saturated_bounded by blast
  from one_second_scenario [OF sin_saturated_zero b] sin_saturated_zero b
  show ?thesis by (simp only: simp_thms)
qed

section \<open>Determinism\<close>

text \<open>
  What the array held before \<open>memcpy\<close> does not show in the header: all
  \<open>k_header_size\<close> bytes are overwritten.
\<close>

lemma header_array_overwrites:
  assumes "length junk = unat k_header_size"
  shows "header_array junk hdr = take (unat k_header_size) (object_bytes hdr)"
  using assms by (simp add: header_array_def memcpy_def)

lemma create_wave_header_array:
  assumes "wave_header_struct d = Returns hdr" and "length junk = unat k_header_size"
  shows "create_wave_header d = Returns (header_array junk hdr)"
  using assms by (simp add: create_wave_header_def header_array_overwrites)

lemma header_array_length:
  assumes "wave_header_struct d = Returns hdr" and "length junk = unat k_header_size"
  shows "length (header_array junk hdr) = 44"
  using header_fields(6) [OF assms(1)] assms(2)
  by (simp add: header_array_overwrites k_header_size_def)

text \<open>
  A run that passes both checks, on a device with room for the file: \<open>audio.wav\<close> holds
  the header and then the whole payload, whatever it held before.
\<close>

lemma create_wave_file_roomy:
  assumes positive: "\<not> dle d (Fin 0)" and audible: "\<not> k_sample_rate div 2 < f"
    and struct: "wave_header_struct d = Returns hdr"
    and header: "create_wave_header d = Returns header"
    and data: "create_wave_data lsin f d = Returns samples"
    and opens: "can_open fs ''audio.wav''"
    and room: "length header + length samples \<le> capacity fs"
  shows "create_wave_file lsin f d fs =
           (Returns (), fs\<lparr>files := (files fs)(''audio.wav'' \<mapsto> header @ samples)\<rparr>)"
proof -
  from struct header have h: "header = take 44 (object_bytes hdr)"
    by (simp add: create_wave_header_def k_header_size_def)
  with header_fields(6) [OF struct] have hl: "length header = 44" by simp
  then have hw: "unat (word_of_nat (length header) :: u32) = 44" by simp
  from struct obtain n where size: "to_u64 (dmul d (Fin 144000)) = Some n"
    and guard: "\<not> 0xFFFFFFFF < n"
    by (auto simp: wave_header_struct_cases split: option.splits if_splits)
  from create_wave_data_length [OF data]
  obtain m where count: "to_u32 (dmul (of_u32 k_sample_rate) d) = Some m"
    and len: "length samples = 3 * unat m"
    by blast
  from payload_fits [OF size guard count] len have "length samples < 2 ^ 32" by simp
  then have sw: "unat (word_of_nat (length samples) :: u32) = length samples"
    by (rule u32_of_nat_unat)
  have "write_to_file header (word_of_nat (length header)) samples
          (word_of_nat (length samples)) ''audio.wav'' fs =
        (Returns (), fs\<lparr>files := (files fs)(''audio.wav'' \<mapsto>
           take (unat (word_of_nat (length header) :: u32)) header
           @ take (unat (word_of_nat (length samples) :: u32)) samples)\<rparr>)"
    using opens
  proof (rule write_to_file_roomy)
    show "length (take (unat (word_of_nat (length header) :: u32)) header)
            + length (take (unat (word_of_nat (length samples) :: u32)) samples) \<le> capacity fs"
      using room by (simp only: hw sw hl) simp
  qed
  then have "write_to_file header (word_of_nat (length header)) samples
          (word_of_nat (length samples)) ''audio.wav'' fs =
        (Returns (), fs\<lparr>files := (files fs)(''audio.wav'' \<mapsto> header @ samples)\<rparr>)"
    by (simp only: hw sw) (simp add: hl)
  with positive audible header data show ?thesis
    by (simp add: create_wave_file_def)
qed

text \<open>The run of two samples, \<open>2^-14\<close> seconds at 1000 Hz.\<close>

lemma product_two: "dmul (Fin (1 / 16384)) (Fin 144000) = Fin (1125 / 128)"
  by (simp add: dmul.simps rnd_eval)

lemma size_two: "to_u64 (dmul (Fin (1 / 16384)) (Fin 144000)) = Some 8"
  by (simp add: product_two conv_eval)

lemma struct_two:
  "wave_header_struct (Fin (1 / 16384)) =
     Returns (format_fields\<lparr>data_size := 8, file_size := 44\<rparr>)"
  by (simp add: wave_header_struct_cases size_two)

lemma count_two: "to_u32 (dmul (of_u32 k_sample_rate) (Fin (1 / 16384))) = Some 2"
  by (simp only: sample_rate_double product_two_samples) (simp add: conv_eval)

lemma data_two:
  "create_wave_data sin_taylor 1000 (Fin (1 / 16384)) =
     Returns [0x00, 0x00, 0x00, 0x09, 0xC0, 0x3B]"
proof -
  define g where "g = \<lparr>m_amplitude = k_amplitude, m_frequency = 1000,
                          m_sample_rate = k_sample_rate\<rparr>"
  have s0: "get_sample sin_taylor g 0 = Returns 0"
    unfolding g_def k_sample_rate_def using sin_taylor_zero by (rule get_sample_first)
  have s1: "get_sample sin_taylor g 1 = Returns 3915785"
    unfolding g_def k_sample_rate_def by (rule get_sample_second)
  have "wave_loop sin_taylor g 2 2 [0x00, 0x00, 0x00, 0x09, 0xC0, 0x3B]
          = Returns [0x00, 0x00, 0x00, 0x09, 0xC0, 0x3B]"
    by (simp add: wave_loop.simps [of _ _ 2 2])
  then have "wave_loop sin_taylor g 1 2 [0x00, 0x00, 0x00]
          = Returns [0x00, 0x00, 0x00, 0x09, 0xC0, 0x3B]"
    by (simp add: wave_loop.simps [of _ _ 1 2] s1 sample_bytes_second)
  then have "wave_loop sin_taylor g 0 2 [] = Returns [0x00, 0x00, 0x00, 0x09, 0xC0, 0x3B]"
    by (simp add: wave_loop.simps [of _ _ 0 2] s0 sample_bytes_zero)
  then show ?thesis
    by (simp only: create_wave_data_def count_two Let_def option.case g_def)
qed

lemma header_array_two:
  assumes "length junk = 44"
  shows "header_array junk (format_fields\<lparr>data_size := 8, file_size := 44\<rparr>) =
     [0x52, 0x49, 0x46, 0x46, 0x2C, 0, 0, 0, 0x57, 0x41, 0x56, 0x45,
      0x66, 0x6D, 0x74, 0x20, 0x10, 0, 0, 0, 1, 0, 1, 0,
      0x80, 0xBB, 0, 0, 0x80, 0x32, 0x02, 0, 3, 0, 0x18, 0,
      0x64, 0x61, 0x74, 0x61, 8, 0, 0, 0]"
  using assms
  by (simp add: header_array_def memcpy_def k_header_size_def format_fields_eval
        object_bytes_def bytes32_def bytes16_def)

text \<open>
  C9. Take two runs with the same frequency and duration that pass both argument checks
  and whose header and payload are defined, \<open>hdr\<close> and \<open>samples\<close>. The first run finds
  \<open>junk1\<close> in the header array and the file system \<open>fs1\<close>, the second \<open>junk2\<close> and
  \<open>fs2\<close>; both file systems let \<open>audio.wav\<close> be opened and have room for the file.
  Then the two header arrays are equal, byte for byte, and are what
  \<open>create_wave_header\<close> returns; both runs return normally; and \<open>audio.wav\<close> holds the
  same bytes after both: that header followed by \<open>samples\<close>.
\<close>

theorem encoding_deterministic:
  assumes junk1: "length junk1 = unat k_header_size"
    and junk2: "length junk2 = unat k_header_size"
    and struct: "wave_header_struct d = Returns hdr"
    and data: "create_wave_data lsin f d = Returns samples"
    and positive: "\<not> dle d (Fin 0)" and audible: "f \<le> k_sample_rate div 2"
    and opens1: "can_open fs1 ''audio.wav''" and opens2: "can_open fs2 ''audio.wav''"
    and room1: "unat k_header_size + length samples \<le> capacity fs1"
    and room2: "unat k_header_size + length samples \<le> capacity fs2"
  shows "header_array junk1 hdr = header_array junk2 hdr
       \<and> create_wave_header d = Returns (header_array junk1 hdr)
       \<and> create_wave_file lsin f d fs1 =
           (Returns (),
            fs1\<lparr>files := (files fs1)(''audio.wav'' \<mapsto> header_array junk1 hdr @ samples)\<rparr>)
       \<and> create_wave_file lsin f d fs2 =
           (Returns (),
            fs2\<lparr>files := (files fs2)(''audio.wav'' \<mapsto> header_array junk2 hdr @ samples)\<rparr>)
       \<and> files (snd (create_wave_file lsin f d fs1)) ''audio.wav''
           = files (snd (create_wave_file lsin f d fs2)) ''audio.wav''"
proof -
  have same: "header_array junk1 hdr = header_array junk2 hdr"
    by (simp only: header_array_overwrites [OF junk1] header_array_overwrites [OF junk2])
  have h1: "create_wave_header d = Returns (header_array junk1 hdr)"
    using struct junk1 by (rule create_wave_header_array)
  have h2: "create_wave_header d = Returns (header_array junk2 hdr)"
    using struct junk2 by (rule create_wave_header_array)
  from audible have aud: "\<not> k_sample_rate div 2 < f" by (simp add: not_less)
  have l1: "length (header_array junk1 hdr) = 44"
    using struct junk1 by (rule header_array_length)
  have l2: "length (header_array junk2 hdr) = 44"
    using struct junk2 by (rule header_array_length)
  have run1: "create_wave_file lsin f d fs1 =
      (Returns (),
       fs1\<lparr>files := (files fs1)(''audio.wav'' \<mapsto> header_array junk1 hdr @ samples)\<rparr>)"
    using positive aud struct h1 data opens1
  proof (rule create_wave_file_roomy)
    show "length (header_array junk1 hdr) + length samples \<le> capacity fs1"
      using room1 by (simp add: l1 k_header_size_def)
  qed
  have run2: "create_wave_file lsin f d fs2 =
      (Returns (),
       fs2\<lparr>files := (files fs2)(''audio.wav'' \<mapsto> header_array junk2 hdr @ samples)\<rparr>)"
    using positive aud struct h2 data opens2
  proof (rule create_wave_file_roomy)
    show "length (header_array junk2 hdr) + length samples \<le> capacity fs2"
      using room2 by (simp add: l2 k_header_size_def)
  qed
  have "files (snd (create_wave_file lsin f d fs1)) ''audio.wav''
           = files (snd (create_wave_file lsin f d fs2)) ''audio.wav''"
    by (simp add: run1 run2 same)
  with same h1 run1 run2 show ?thesis by (simp only: simp_thms)
qed

text \<open>
  Two runs of two samples: one on an empty file system with an array of zeros, one where
  \<open>audio.wav\<close> exists with other content, with an array of \<open>FF\<close>s and a smaller buffer.
  Both leave the same 50 bytes.
\<close>

theorem encoding_deterministic_witness:
  "wave_header_struct (Fin (1 / 16384)) =
     Returns (format_fields\<lparr>data_size := 8, file_size := 44\<rparr>)
   \<and> create_wave_data sin_taylor 1000 (Fin (1 / 16384)) =
       Returns [0x00, 0x00, 0x00, 0x09, 0xC0, 0x3B]
   \<and> files used_disk ''audio.wav'' = Some [0x01, 0x02, 0x03]
   \<and> files blank_disk ''audio.wav'' = None
   \<and> header_array (replicate 44 0x00) (format_fields\<lparr>data_size := 8, file_size := 44\<rparr>)
       = header_array (replicate 44 0xFF) (format_fields\<lparr>data_size := 8, file_size := 44\<rparr>)
   \<and> files (snd (create_wave_file sin_taylor 1000 (Fin (1 / 16384)) blank_disk)) ''audio.wav''
       = Some [0x52, 0x49, 0x46, 0x46, 0x2C, 0, 0, 0, 0x57, 0x41, 0x56, 0x45,
               0x66, 0x6D, 0x74, 0x20, 0x10, 0, 0, 0, 1, 0, 1, 0,
               0x80, 0xBB, 0, 0, 0x80, 0x32, 0x02, 0, 3, 0, 0x18, 0,
               0x64, 0x61, 0x74, 0x61, 8, 0, 0, 0,
               0x00, 0x00, 0x00, 0x09, 0xC0, 0x3B]
   \<and> files (snd (create_wave_file sin_taylor 1000 (Fin (1 / 16384)) used_disk)) ''audio.wav''
       = Some [0x52, 0x49, 0x46, 0x46, 0x2C, 0, 0, 0, 0x57, 0x41, 0x56, 0x45,
               0x66, 0x6D, 0x74, 0x20, 0x10, 0, 0, 0, 1, 0, 1, 0,
               0x80, 0xBB, 0, 0, 0x80, 0x32, 0x02, 0, 3, 0, 0x18, 0,
               0x64, 0x61, 0x74, 0x61, 8, 0, 0, 0,
               0x00, 0x00, 0x00, 0x09, 0xC0, 0x3B]"
proof -
  have j1: "length (replicate 44 (0x00 :: u8)) = unat k_header_size"
    by (simp add: k_header_size_def)
  have j2: "length (replicate 44 (0xFF :: u8)) = unat k_header_size"
    by (simp add: k_header_size_def)
  have pos: "\<not> dle (Fin (1 / 16384)) (Fin 0)" by simp
  have aud: "(1000 :: u32) \<le> k_sample_rate div 2" by (simp add: half_sample_rate)
  have o1: "can_open blank_disk ''audio.wav''" by (simp add: blank_disk_def)
  have o2: "can_open used_disk ''audio.wav''" by (simp add: used_disk_def)
  have r1: "unat k_header_size + length [0x00, 0x00, 0x00, 0x09, 0xC0, 0x3B :: u8]
              \<le> capacity blank_disk"
    by (simp add: k_header_size_def blank_disk_def)
  have r2: "unat k_header_size + length [0x00, 0x00, 0x00, 0x09, 0xC0, 0x3B :: u8]
              \<le> capacity used_disk"
    by (simp add: k_header_size_def used_disk_def)
  have a1: "header_array (replicate 44 0x00) (format_fields\<lparr>data_size := 8, file_size := 44\<rparr>) =
     [0x52, 0x49, 0x46, 0x46, 0x2C, 0, 0, 0, 0x57, 0x41, 0x56, 0x45,
      0x66, 0x6D, 0x74, 0x20, 0x10, 0, 0, 0, 1, 0, 1, 0,
      0x80, 0xBB, 0, 0, 0x80, 0x32, 0x02, 0, 3, 0, 0x18, 0,
      0x64, 0x61, 0x74, 0x61, 8, 0, 0, 0]"
    by (rule header_array_two) simp
  have a2: "header_array (replicate 44 0xFF) (format_fields\<lparr>data_size := 8, file_size := 44\<rparr>) =
     [0x52, 0x49, 0x46, 0x46, 0x2C, 0, 0, 0, 0x57, 0x41, 0x56, 0x45,
      0x66, 0x6D, 0x74, 0x20, 0x10, 0, 0, 0, 1, 0, 1, 0,
      0x80, 0xBB, 0, 0, 0x80, 0x32, 0x02, 0, 3, 0, 0x18, 0,
      0x64, 0x61, 0x74, 0x61, 8, 0, 0, 0]"
    by (rule header_array_two) simp
  have u: "files used_disk ''audio.wav'' = Some [0x01, 0x02, 0x03]"
    by (simp add: used_disk_def)
  have b: "files blank_disk ''audio.wav'' = None"
    by (simp add: blank_disk_def)
  from encoding_deterministic [OF j1 j2 struct_two data_two pos aud o1 o2 r1 r2]
  have "header_array (replicate 44 0x00) (format_fields\<lparr>data_size := 8, file_size := 44\<rparr>)
       = header_array (replicate 44 0xFF) (format_fields\<lparr>data_size := 8, file_size := 44\<rparr>)"
    and "files (snd (create_wave_file sin_taylor 1000 (Fin (1 / 16384)) blank_disk)) ''audio.wav''
       = Some (header_array (replicate 44 0x00) (format_fields\<lparr>data_size := 8, file_size := 44\<rparr>)
               @ [0x00, 0x00, 0x00, 0x09, 0xC0, 0x3B])"
    and "files (snd (create_wave_file sin_taylor 1000 (Fin (1 / 16384)) used_disk)) ''audio.wav''
       = Some (header_array (replicate 44 0xFF) (format_fields\<lparr>data_size := 8, file_size := 44\<rparr>)
               @ [0x00, 0x00, 0x00, 0x09, 0xC0, 0x3B])"
    by simp_all
  then show ?thesis
    using struct_two data_two u b by (simp only: a1 a2 append.simps simp_thms)
qed

section \<open>A device that takes no byte\<close>

text \<open>
  The 44 bytes of the shortest file stay in the buffer through both \<open>write\<close>s, and
  \<open>close\<close> is not tested: the program returns normally and leaves an empty file.
\<close>

lemma create_wave_file_full_short:
  "create_wave_file lsin 1000 (Fin (1 / 65536)) full_disk =
     (Returns (), full_disk\<lparr>files := (files full_disk)(''audio.wav'' \<mapsto> [])\<rparr>)"
  by (simp add: create_wave_file_def half_sample_rate header_short data_short
        write_to_file_unnoticed full_disk_def)

text \<open>
  For one second the header stays in the buffer and the payload does not: the failure
  of the device is reported for the audio data.
\<close>

lemma create_wave_file_full_long:
  "fst (create_wave_file sin_saturated 1000 (Fin 1) full_disk) = Throws data_write_failure"
proof -
  from create_wave_data_returns [where lsin = sin_saturated and f = 1000,
      OF sin_saturated_bounded count_one_second]
  obtain data where data: "create_wave_data sin_saturated 1000 (Fin 1) = Returns data"
    and len: "length data = 144000"
    by auto
  define header :: "u8 list" where
    "header = [0x52, 0x49, 0x46, 0x46, 0xA4, 0x32, 0x02, 0, 0x57, 0x41, 0x56, 0x45,
               0x66, 0x6D, 0x74, 0x20, 0x10, 0, 0, 0, 1, 0, 1, 0,
               0x80, 0xBB, 0, 0, 0x80, 0x32, 0x02, 0, 3, 0, 0x18, 0,
               0x64, 0x61, 0x74, 0x61, 0x80, 0x32, 0x02, 0]"
  have hl: "length header = 44" by (simp add: header_def)
  have h: "create_wave_header (Fin 1) = Returns header"
    unfolding header_def by (rule header_one_second)
  have "fst (write_to_file header (word_of_nat (length header)) data
               (word_of_nat (length data)) ''audio.wav'' full_disk) = Throws data_write_failure"
  proof (rule write_to_file_blames_data)
    show "can_open full_disk ''audio.wav''" by (simp add: full_disk_def)
    show "length (take (unat (word_of_nat (length header) :: u32)) header) \<le> buffer full_disk"
      by (simp add: hl full_disk_def)
    show "buffer full_disk < length (take (unat (word_of_nat (length header) :: u32)) header)
            + length (take (unat (word_of_nat (length data) :: u32)) data)"
      by (simp add: hl len full_disk_def)
    show "capacity full_disk < length (take (unat (word_of_nat (length header) :: u32)) header)
            + length (take (unat (word_of_nat (length data) :: u32)) data)"
      by (simp add: hl len full_disk_def)
  qed
  then show ?thesis
    by (simp add: create_wave_file_def half_sample_rate h data)
qed

section \<open>Durations of a whole number of samples\<close>

lemma round_even_of_int: "round_even (of_int N) = N"
  by (simp add: round_even_def Let_def)

lemma rnd_of_int:
  assumes "\<bar>n\<bar> < 2 ^ 53"
  shows "rnd (of_int n) = Fin (of_int n)"
proof (cases "n = 0")
  case True
  then show ?thesis by (simp add: rnd_def)
next
  case False
  define a :: rat where "a = \<bar>of_int n\<bar>"
  define e where "e = max (ilog2 a) (- 1022)"
  define j where "j = nat (52 - e)"
  have a: "a = of_int \<bar>n\<bar>" by (simp add: a_def)
  from False have a0: "0 < a" by (simp add: a_def)
  from assms have "(of_int \<bar>n\<bar> :: rat) < of_int (2 ^ 53)"
    by (simp only: of_int_less_iff)
  then have "a < 2 ^ 53" by (simp add: a)
  with a0 have "ilog2 a < int 53" by (intro ilog2_upper) simp_all
  then have "e \<le> 52" by (simp add: e_def)
  then have u: "pow2 (e - 52) = 1 / 2 ^ j"
    by (cases "e = 52") (simp_all add: pow2_def j_def)
  have "a / pow2 (e - 52) = of_int (\<bar>n\<bar> * 2 ^ j)" by (simp add: u a)
  then have "round_even (a / pow2 (e - 52)) = \<bar>n\<bar> * 2 ^ j"
    by (simp only: round_even_of_int)
  then have r: "of_int (round_even (a / pow2 (e - 52))) * pow2 (e - 52) = a"
    by (simp add: u a)
  have "a < pow2 1024"
    using \<open>a < 2 ^ 53\<close> by (simp add: pow2_def)
  with False r have "rnd (of_int n) = Fin (sgn (of_int n) * a)"
    by (simp add: rnd_def Let_def a_def e_def)
  then show ?thesis by (simp add: a_def sgn_mult_abs)
qed

lemma uint_word_of_int_small:
  assumes "0 \<le> k" and "k < 2 ^ LENGTH('a)"
  shows "uint (word_of_int k :: 'a::len word) = k"
  using assms by (simp add: uint_word_of_int)

lemma trunc_of_int: "trunc (of_int k) = k"
  by (simp add: trunc_def)

lemma to_u64_of_int:
  "0 \<le> k \<Longrightarrow> k < 2 ^ 64 \<Longrightarrow> to_u64 (Fin (of_int k)) = Some (word_of_int k)"
  by (simp add: to_u64_def trunc_of_int)

lemma to_u32_of_int:
  "0 \<le> k \<Longrightarrow> k < 2 ^ 32 \<Longrightarrow> to_u32 (Fin (of_int k)) = Some (word_of_int k)"
  by (simp add: to_u32_def trunc_of_int)

text \<open>
  When the duration is a whole number \<open>N\<close> of sample periods (so for every whole number
  of seconds), both products are exact: the header declares \<open>3 * N\<close> bytes and the
  payload has \<open>N\<close> samples.
\<close>

lemma sizes_agree_on_whole_samples:
  assumes "q * 48000 = of_int N" and "0 \<le> N" and "3 * N < 2 ^ 32"
  shows "to_u64 (dmul (Fin q) (Fin 144000)) = Some (word_of_int (3 * N))"
    and "to_u32 (dmul (of_u32 k_sample_rate) (Fin q)) = Some (word_of_int N)"
proof -
  from assms(2,3) have "\<bar>3 * N\<bar> < 2 ^ 53" and "\<bar>N\<bar> < 2 ^ 53" by simp_all
  then have big: "rnd (of_int (3 * N)) = Fin (of_int (3 * N))"
    and small: "rnd (of_int N) = Fin (of_int N)"
    by (simp_all only: rnd_of_int)
  from assms(1) have "q * 144000 = of_int (3 * N)" by simp
  with big have product: "dmul (Fin q) (Fin 144000) = Fin (of_int (3 * N))"
    by (simp only: dmul.simps)
  show "to_u64 (dmul (Fin q) (Fin 144000)) = Some (word_of_int (3 * N))"
    unfolding product by (rule to_u64_of_int) (use assms(2,3) in simp_all)
  from assms(1) have "48000 * q = of_int N" by (simp add: mult.commute)
  with small have count: "dmul (of_u32 k_sample_rate) (Fin q) = Fin (of_int N)"
    by (simp only: sample_rate_double dmul.simps)
  show "to_u32 (dmul (of_u32 k_sample_rate) (Fin q)) = Some (word_of_int N)"
    unfolding count by (rule to_u32_of_int) (use assms(2,3) in simp_all)
qed

lemma payload_matches_header_on_whole_samples:
  assumes bounded: "\<And>x. \<exists>r. lsin (Fin x) = Fin r \<and> \<bar>r\<bar> \<le> 1"
    and "q * 48000 = of_int N" and "0 \<le> N" and "3 * N < 2 ^ 32"
  shows "\<exists>h bytes. wave_header_struct (Fin q) = Returns h
           \<and> create_wave_data lsin f (Fin q) = Returns bytes
           \<and> unat (data_size h) = length bytes \<and> length bytes = nat (3 * N)"
proof -
  note sizes = sizes_agree_on_whole_samples [OF assms(2-4)]
  have n3: "uint (word_of_int (3 * N) :: u64) = 3 * N"
    by (rule uint_word_of_int_small) (use assms(3,4) in simp_all)
  have "uint (word_of_int (3 * N) :: u64) \<le> uint (0xFFFFFFFF :: u64)"
    unfolding n3 using assms(4) by simp
  then have small: "\<not> (0xFFFFFFFF :: u64) < word_of_int (3 * N)"
    by (simp add: word_le_def not_less)
  have header: "wave_header_struct (Fin q) =
      Returns (format_fields\<lparr>data_size := ucast (word_of_int (3 * N) :: u64),
                              file_size := ucast (word_of_int (3 * N) :: u64) + 36\<rparr>)"
    using small by (simp add: wave_header_struct_cases sizes(1))
  have "(ucast (word_of_int (3 * N) :: u64) :: u32) = word_of_int (3 * N)"
    by (simp only: ucast_eq n3)
  moreover have "uint (word_of_int (3 * N) :: u32) = 3 * N"
    by (rule uint_word_of_int_small) (use assms(3,4) in simp_all)
  ultimately have "uint (ucast (word_of_int (3 * N) :: u64) :: u32) = 3 * N"
    by (simp only:)
  then have declared: "unat (ucast (word_of_int (3 * N) :: u64) :: u32) = nat (3 * N)"
    by (simp add: unat_eq_nat_uint)
  from create_wave_data_returns [where lsin = lsin, OF bounded sizes(2)]
  obtain bytes where bytes: "create_wave_data lsin f (Fin q) = Returns bytes"
      "length bytes = 3 * unat (word_of_int N :: u32)"
    by blast
  have "uint (word_of_int N :: u32) = N"
    by (rule uint_word_of_int_small) (use assms(3,4) in simp_all)
  then have "unat (word_of_int N :: u32) = nat N"
    by (simp add: unat_eq_nat_uint)
  with bytes(2) assms(3) have "length bytes = nat (3 * N)"
    by (simp add: nat_mult_distrib)
  with header bytes(1) declared show ?thesis by simp
qed

end
